theory Spec2Isabelle
  imports Complex_Main "HOL-Library.Word" "HOL-Library.AList" "HOL-Library.Sublist"
begin

section \<open>The message assembler cell of src/io/ros/MsgAssembler.cpp\<close>

text \<open>
  The cell \<^verbatim>\<open>MsgAssembler\<close> turns a list of pose results into a pose array, a JSON
  text with the object identifiers and an array of visualisation markers. Its only
  state is the static table \<^verbatim>\<open>object_id_to_index_\<close>; the model passes that table in
  and returns it updated.

  Conventions of the embedding:
  \<^item> \<^verbatim>\<open>float\<close> and \<^verbatim>\<open>double\<close> values are real numbers. The hue of line 209 is rounded
    as the code rounds it: to \<^verbatim>\<open>double\<close> after the division and after the product, and
    to \<^verbatim>\<open>float\<close> when it is stored in \<^verbatim>\<open>hue\<close>; that rounding can bring the hue up to
    360, where no branch of \<^verbatim>\<open>hsv2rgb\<close> is taken. All other arithmetic (inside
    \<^verbatim>\<open>hsv2rgb\<close>, and the constants 0.7, 0.75 and 0.03) is exact, so the components of a
    colour are those of the code up to the rounding of \<^verbatim>\<open>hsv2rgb\<close>'s own operations;
  \<^item> \<^verbatim>\<open>unsigned int\<close> values (the table's indices, the counter \<^verbatim>\<open>marker_id\<close>) are
    32-bit words, and the conversion of a \<^verbatim>\<open>size_t\<close> to one is \<open>of_nat\<close>;
  \<^item> what the file calls but does not define (the attribute lookup of a pose
    result, Eigen's conversion of a rotation matrix to a quaternion, the JSON
    writer) is a field of the record \<open>externals\<close>, a parameter of \<open>process\<close>.
\<close>

subsection \<open>Messages\<close>

type_synonym ObjectId = string

type_synonym vec3 = "real \<times> real \<times> real"

text \<open>A 3x3 matrix, as its three rows.\<close>

type_synonym mat3 = "vec3 \<times> vec3 \<times> vec3"

text \<open>\<^verbatim>\<open>ros::Time\<close>: seconds and nanoseconds.\<close>

datatype Time = Time "32 word" "32 word"

text \<open>\<^verbatim>\<open>ros::Duration\<close>, built from a number of seconds.\<close>

datatype Duration = Duration real

text \<open>\<^verbatim>\<open>geometry_msgs\<close>: a point is (x, y, z), a quaternion (x, y, z, w), a vector (x, y, z);
  \<^verbatim>\<open>std_msgs::ColorRGBA\<close> is (r, g, b, a).\<close>

datatype Point = Point real real real

datatype Quaternion = Quaternion real real real real

datatype Vector3 = Vector3 real real real

datatype ColorRGBA = ColorRGBA real real real real

record Header =
  seq :: "32 word"
  stamp :: Time
  frame_id :: string

record Pose =
  position :: Point
  orientation :: Quaternion

text \<open>The constants of \<^verbatim>\<open>visualization_msgs::Marker\<close>, in the order of their values
  (\<open>ARROW\<close> is 0, \<open>TEXT_VIEW_FACING\<close> 9, \<open>MESH_RESOURCE\<close> 10; \<open>ADD\<close> is 0).\<close>

datatype marker_type =
  ARROW | CUBE | SPHERE | CYLINDER | LINE_STRIP | LINE_LIST | CUBE_LIST | SPHERE_LIST
  | POINTS | TEXT_VIEW_FACING | MESH_RESOURCE | TRIANGLE_LIST

datatype marker_action = ADD | DELETE

record Marker =
  m_header :: Header
  m_ns :: string
  m_id :: int
  m_type :: marker_type
  m_action :: marker_action
  m_pose :: Pose
  m_scale :: Vector3
  m_color :: ColorRGBA
  m_lifetime :: Duration
  m_text :: string
  m_mesh_resource :: string

record PoseArrayMsg =
  pa_header :: Header
  poses :: "Pose list"

record MarkerArrayMsg =
  markers :: "Marker list"

record ObjectIdsMsg =
  data :: string

text \<open>\<^verbatim>\<open>sensor_msgs::Image\<close>: the cell reads its header only.\<close>

record Image =
  image_header :: Header

text \<open>A message as its default constructor leaves it.\<close>

definition default_Header :: Header where
  "default_Header = \<lparr>seq = 0, stamp = Time 0 0, frame_id = ''''\<rparr>"

definition default_Pose :: Pose where
  "default_Pose = \<lparr>position = Point 0 0 0, orientation = Quaternion 0 0 0 0\<rparr>"

definition default_Marker :: Marker where
  "default_Marker =
     \<lparr>m_header = default_Header, m_ns = '''', m_id = 0, m_type = ARROW, m_action = ADD,
      m_pose = default_Pose, m_scale = Vector3 0 0 0, m_color = ColorRGBA 0 0 0 0,
      m_lifetime = Duration 0, m_text = '''', m_mesh_resource = ''''\<rparr>"

subsection \<open>Pose results and the code outside the file\<close>

text \<open>\<^verbatim>\<open>common::PoseResult\<close>: the identifier, the rotation \<open>R\<close> and the translation \<open>T\<close>.\<close>

record pose_result =
  object_id :: ObjectId
  pr_R :: mat3
  pr_T :: vec3

text \<open>The values \<^verbatim>\<open>or_json::mValue\<close> takes in this file.\<close>

datatype mValue = mStr string | mArray "mValue list" | mObject "(string \<times> mValue) list"

text \<open>
  What \<open>process\<close> calls and the file does not define:
  \<^item> \<open>get_attribute\<close>: \<^verbatim>\<open>PoseResult::get_attribute<std::string>\<close>; \<open>None\<close> when the lookup
    does not return a string (the call then ends in the error below);
  \<^item> \<open>quaternion_of\<close>: the constructor \<^verbatim>\<open>Eigen::Quaternion<float>(Matrix3f)\<close>;
  \<^item> \<open>or_json_write\<close>: \<^verbatim>\<open>or_json::write\<close>, the text of a JSON value.
\<close>

record externals =
  get_attribute :: "pose_result \<Rightarrow> string \<Rightarrow> string option"
  quaternion_of :: "mat3 \<Rightarrow> Quaternion"
  or_json_write :: "mValue \<Rightarrow> string"

datatype error = Attribute_lookup_failed string

record outputs =
  pose_message :: PoseArrayMsg
  object_ids_message :: ObjectIdsMsg
  marker_message :: MarkerArrayMsg

subsection \<open>Rounding to double and to float\<close>

text \<open>
  What an IEEE 754 operation stores, rounding to nearest with ties to even: the
  number with \<open>p\<close> significant bits that is nearest to the exact result, and of two
  that are equally near the one whose last bit is 0. \<open>round_half_even q\<close> is the
  integer nearest to \<open>q\<close>, a tie going to the even one. For \<open>2 ^ e \<le> |x| < 2 ^ (e + 1)\<close>
  the numbers with \<open>p\<close> significant bits are the multiples of \<open>2 ^ (e - p + 1)\<close>, and
  \<open>round_to p x\<close> is the nearest of them. The exponent is not bounded (no overflow,
  no subnormal numbers): what this file rounds is 0 or lies between \<open>360 / 2 ^ 64\<close>
  and \<open>2 ^ 64\<close>, well inside the range of either format.
\<close>

definition round_half_even :: "real \<Rightarrow> int" where
  "round_half_even q =
     (let f = \<lfloor>q\<rfloor>
      in if q - of_int f < 1 / 2 then f
         else if 1 / 2 < q - of_int f then f + 1
         else if even f then f else f + 1)"

definition round_to :: "nat \<Rightarrow> real \<Rightarrow> real" where
  "round_to p x =
     (if x = 0 then 0
      else (let e = \<lfloor>log 2 \<bar>x\<bar>\<rfloor>;
                u = 2 powr of_int (e - int p + 1)
            in sgn x * (of_int (round_half_even (\<bar>x\<bar> / u)) * u)))"

text \<open>A \<^verbatim>\<open>double\<close> has 53 significant bits, a \<^verbatim>\<open>float\<close> 24.\<close>

definition to_double :: "real \<Rightarrow> real" where
  "to_double x = round_to 53 x"

definition to_float :: "real \<Rightarrow> real" where
  "to_float x = round_to 24 x"

subsection \<open>hsv2rgb\<close>

text \<open>C's \<^verbatim>\<open>fmodf\<close>: the remainder of \<open>a / b\<close> with the quotient truncated towards zero.\<close>

definition fmodf :: "real \<Rightarrow> real \<Rightarrow> real" where
  "fmodf a b = a - b * of_int (if 0 \<le> a / b then \<lfloor>a / b\<rfloor> else \<lceil>a / b\<rceil>)"

definition hsv2rgb :: "real \<Rightarrow> real \<Rightarrow> real \<Rightarrow> real \<times> real \<times> real" where
  "hsv2rgb h s v =
     (let c = v * s;
          hprime = h / 60;
          x = c * (1 - \<bar>fmodf hprime 2 - 1\<bar>);
          (r, g, b) =
            (if hprime < 1 then (c, x, 0)
             else if hprime < 2 then (x, c, 0)
             else if hprime < 3 then (0, c, x)
             else if hprime < 4 then (0, x, c)
             else if hprime < 5 then (x, 0, c)
             else if hprime < 6 then (c, 0, x)
             else (0, 0, 0));
          m = v - c
      in (r + m, g + m, b + m))"

subsection \<open>The table object_id_to_index_\<close>

text \<open>
  \<^verbatim>\<open>std::map<ObjectId, unsigned int>\<close> as an association list in the order of insertion.
  The code uses \<^verbatim>\<open>find\<close>, \<^verbatim>\<open>operator[]\<close> and \<^verbatim>\<open>size\<close> only and never iterates over the
  table, so the order of the list is not observable. \<^verbatim>\<open>operator[]\<close> on a key that is
  absent inserts it with the value 0.
\<close>

type_synonym index_table = "(ObjectId \<times> 32 word) list"

definition map_find :: "index_table \<Rightarrow> ObjectId \<Rightarrow> 32 word option" where
  "map_find tbl k = map_of tbl k"

definition map_size :: "index_table \<Rightarrow> nat" where
  "map_size tbl = length tbl"

definition map_subscript :: "index_table \<Rightarrow> ObjectId \<Rightarrow> 32 word \<times> index_table" where
  "map_subscript tbl k =
     (case map_of tbl k of
        Some v \<Rightarrow> (v, tbl)
      | None \<Rightarrow> (0, AList.update k 0 tbl))"

text \<open>
  The statement \<^verbatim>\<open>m[k] = m.size()\<close>. The right operand is evaluated first, as C++17
  sequences an assignment (earlier standards leave the order open, and the other
  order would store the size after the insertion).
\<close>

definition map_assign_size :: "index_table \<Rightarrow> ObjectId \<Rightarrow> index_table" where
  "map_assign_size tbl k =
     (let v = (of_nat (map_size tbl) :: 32 word);
          (_, tbl') = map_subscript tbl k
      in AList.update k v tbl')"

text \<open>The first loop of \<open>process\<close> (lines 168 to 170).\<close>

fun register_ids :: "index_table \<Rightarrow> pose_result list \<Rightarrow> index_table" where
  "register_ids tbl [] = tbl"
| "register_ids tbl (pose_result # rest) =
     register_ids
       (if map_find tbl (object_id pose_result) = None
        then map_assign_size tbl (object_id pose_result)
        else tbl)
       rest"

subsection \<open>process\<close>

text \<open>
  One turn of the second loop (lines 178 to 232). \<open>poses\<close> has been resized to the
  number of pose results; \<open>msg_pose\<close> is a reference to \<open>poses[marker_id]\<close>, all of
  whose fields are assigned. The two nested loops over \<open>j\<close> and \<open>i\<close> copy the nine
  entries of \<open>R\<close>. In the product for the hue the left operand is evaluated first.
  The hue (line 209): \<^verbatim>\<open>360.0\<close> is a \<^verbatim>\<open>double\<close>, so the size of the table and the index
  are converted to \<^verbatim>\<open>double\<close>, the quotient and the product are \<^verbatim>\<open>double\<close> operations,
  each rounded on its own, and the initialisation of the \<^verbatim>\<open>float\<close> \<open>hue\<close> rounds the
  product to \<^verbatim>\<open>float\<close>.
  A lookup of an attribute that returns no string ends the call.
\<close>

definition loop_body ::
  "externals \<Rightarrow> Header \<Rightarrow> index_table \<Rightarrow> Pose list \<Rightarrow> Marker list \<Rightarrow> 32 word \<Rightarrow> pose_result
     \<Rightarrow> index_table \<times> (error + Pose list \<times> Marker list)" where
  "loop_body ext hdr tbl poses0 markers0 marker_id pose_result =
     (let (t0, t1, t2) = pr_T pose_result;
          rotation_matrix = pr_R pose_result;
          quaternion = quaternion_of ext rotation_matrix;
          msg_pose = \<lparr>position = Point t0 t1 t2, orientation = quaternion\<rparr>;
          poses1 = poses0[unat marker_id := msg_pose];
          marker = default_Marker
            \<lparr>m_pose := msg_pose, m_type := MESH_RESOURCE, m_action := ADD,
             m_lifetime := Duration 30, m_header := hdr, m_scale := Vector3 1 1 1\<rparr>;
          n = map_size tbl;
          (idx, tbl1) = map_subscript tbl (object_id pose_result);
          hue = to_float (to_double (to_double (360 / to_double (real n))
                                       * to_double (real (unat idx))));
          (r, g, b) = hsv2rgb hue (7 / 10) 1;
          marker = marker\<lparr>m_color := ColorRGBA r g b (3 / 4), m_id := sint marker_id\<rparr>
      in case get_attribute ext pose_result ''mesh_uri'' of
           None \<Rightarrow> (tbl1, Inl (Attribute_lookup_failed ''mesh_uri''))
         | Some mesh_uri \<Rightarrow>
             (let marker = marker\<lparr>m_mesh_resource := mesh_uri\<rparr>;
                  markers1 = markers0 @ [marker]
              in case get_attribute ext pose_result ''name'' of
                   None \<Rightarrow> (tbl1, Inl (Attribute_lookup_failed ''name''))
                 | Some name \<Rightarrow>
                     (let marker = marker
                            \<lparr>m_type := TEXT_VIEW_FACING, m_text := name,
                             m_color := ColorRGBA 1 1 1 1,
                             m_scale := (case m_scale marker of
                                           Vector3 sx sy sz \<Rightarrow> Vector3 sx sy (3 / 100)),
                             m_lifetime := Duration 10\<rparr>
                      in (tbl1, Inr (poses1, markers1 @ [marker])))))"

fun fill_loop ::
  "externals \<Rightarrow> Header \<Rightarrow> index_table \<Rightarrow> Pose list \<Rightarrow> Marker list \<Rightarrow> 32 word
     \<Rightarrow> pose_result list \<Rightarrow> index_table \<times> (error + Pose list \<times> Marker list)" where
  "fill_loop ext hdr tbl poses0 markers0 marker_id [] = (tbl, Inr (poses0, markers0))"
| "fill_loop ext hdr tbl poses0 markers0 marker_id (pose_result # rest) =
     (case loop_body ext hdr tbl poses0 markers0 marker_id pose_result of
        (tbl1, Inl e) \<Rightarrow> (tbl1, Inl e)
      | (tbl1, Inr (poses1, markers1)) \<Rightarrow>
          fill_loop ext hdr tbl1 poses1 markers1 (marker_id + 1) rest)"

text \<open>The JSON value of lines 237 to 242.\<close>

definition object_ids_param_tree :: "pose_result list \<Rightarrow> mValue" where
  "object_ids_param_tree pose_results =
     mObject [(''object_ids'', mArray (map (\<lambda>pose_result. mStr (object_id pose_result)) pose_results))]"

text \<open>
  \<open>process\<close>: \<open>time\<close> is what \<^verbatim>\<open>ros::Time::now()\<close> returns, \<open>image_message\<close> the image
  pointer (\<open>None\<close> when it is null), \<open>tbl\<close> the static table before the call. The
  result is the table after the call and either the three outputs or the error
  that ended the call. With the outputs the C++ function returns 0.
\<close>

definition process ::
  "externals \<Rightarrow> Time \<Rightarrow> Image option \<Rightarrow> index_table \<Rightarrow> pose_result list
     \<Rightarrow> index_table \<times> (error + outputs)" where
  "process ext time image_message tbl pose_results =
     (let hdr0 = (case image_message of
                    Some img \<Rightarrow> default_Header\<lparr>frame_id := frame_id (image_header img)\<rparr>
                  | None \<Rightarrow> default_Header);
          hdr = hdr0\<lparr>stamp := time\<rparr>;
          tbl1 = register_ids tbl pose_results;
          poses0 = replicate (length pose_results) default_Pose
      in case fill_loop ext hdr tbl1 poses0 [] 0 pose_results of
           (tbl2, Inl e) \<Rightarrow> (tbl2, Inl e)
         | (tbl2, Inr (poses1, markers1)) \<Rightarrow>
             (tbl2,
              Inr \<lparr>pose_message = \<lparr>pa_header = hdr, poses = poses1\<rparr>,
                   object_ids_message =
                     \<lparr>data = or_json_write ext (object_ids_param_tree pose_results)\<rparr>,
                   marker_message = \<lparr>markers = markers1\<rparr>\<rparr>))"

section \<open>Notions used in the statements\<close>

text \<open>
  Closed forms of what one turn of the second loop computes, read off \<open>loop_body\<close>;
  the lemmas of the next section prove that the loop produces them.
\<close>

definition header_of :: "Time \<Rightarrow> Image option \<Rightarrow> Header" where
  "header_of time image_message =
     (case image_message of
        Some img \<Rightarrow> default_Header\<lparr>frame_id := frame_id (image_header img)\<rparr>
      | None \<Rightarrow> default_Header)\<lparr>stamp := time\<rparr>"

definition msg_pose_of :: "externals \<Rightarrow> pose_result \<Rightarrow> Pose" where
  "msg_pose_of ext pr =
     \<lparr>position = (case pr_T pr of (t0, t1, t2) \<Rightarrow> Point t0 t1 t2),
      orientation = quaternion_of ext (pr_R pr)\<rparr>"

definition hue_of :: "index_table \<Rightarrow> ObjectId \<Rightarrow> real" where
  "hue_of tbl k =
     to_float (to_double (to_double (360 / to_double (real (map_size tbl)))
                            * to_double (real (unat (fst (map_subscript tbl k))))))"

definition attribute_of :: "externals \<Rightarrow> pose_result \<Rightarrow> string \<Rightarrow> string" where
  "attribute_of ext pr key = (case get_attribute ext pr key of Some s \<Rightarrow> s | None \<Rightarrow> [])"

definition mesh_marker_of ::
  "externals \<Rightarrow> Header \<Rightarrow> index_table \<Rightarrow> 32 word \<Rightarrow> pose_result \<Rightarrow> Marker" where
  "mesh_marker_of ext hdr tbl marker_id pr =
     \<lparr>m_header = hdr, m_ns = '''', m_id = sint marker_id, m_type = MESH_RESOURCE,
      m_action = ADD, m_pose = msg_pose_of ext pr, m_scale = Vector3 1 1 1,
      m_color = (case hsv2rgb (hue_of tbl (object_id pr)) (7 / 10) 1 of
                   (r, g, b) \<Rightarrow> ColorRGBA r g b (3 / 4)),
      m_lifetime = Duration 30, m_text = '''',
      m_mesh_resource = attribute_of ext pr ''mesh_uri''\<rparr>"

definition text_marker_of ::
  "externals \<Rightarrow> Header \<Rightarrow> index_table \<Rightarrow> 32 word \<Rightarrow> pose_result \<Rightarrow> Marker" where
  "text_marker_of ext hdr tbl marker_id pr =
     \<lparr>m_header = hdr, m_ns = '''', m_id = sint marker_id, m_type = TEXT_VIEW_FACING,
      m_action = ADD, m_pose = msg_pose_of ext pr, m_scale = Vector3 1 1 (3 / 100),
      m_color = ColorRGBA 1 1 1 1,
      m_lifetime = Duration 10, m_text = attribute_of ext pr ''name'',
      m_mesh_resource = attribute_of ext pr ''mesh_uri''\<rparr>"

fun markers_from ::
  "externals \<Rightarrow> Header \<Rightarrow> index_table \<Rightarrow> 32 word \<Rightarrow> pose_result list \<Rightarrow> Marker list" where
  "markers_from ext hdr tbl marker_id [] = []"
| "markers_from ext hdr tbl marker_id (pr # rest) =
     mesh_marker_of ext hdr tbl marker_id pr # text_marker_of ext hdr tbl marker_id pr
       # markers_from ext hdr tbl (marker_id + 1) rest"

text \<open>Both attribute lookups of every pose result return a string.\<close>

definition attrs_ok :: "externals \<Rightarrow> pose_result list \<Rightarrow> bool" where
  "attrs_ok ext prs =
     list_all (\<lambda>pr. get_attribute ext pr ''mesh_uri'' \<noteq> None \<and> get_attribute ext pr ''name'' \<noteq> None) prs"

text \<open>The identifiers of the markers of a result (none when the call ended in an error).\<close>

definition marker_ids :: "error + outputs \<Rightarrow> int list" where
  "marker_ids res =
     (case res of Inr out \<Rightarrow> map m_id (markers (marker_message out)) | Inl e \<Rightarrow> [])"

subsection \<open>The conversion of a hue, by sectors\<close>

text \<open>
  The conversion in the words of the spec: six sectors of 60 degrees, linear in the
  hue within each. \<open>m\<close> is the least and \<open>v\<close> the greatest of the three components.
\<close>

definition hsv_sectors :: "real \<Rightarrow> real \<Rightarrow> real \<Rightarrow> real \<times> real \<times> real" where
  "hsv_sectors h s v =
     (let c = v * s; m = v - c
      in if h < 60 then (v, m + c * (h / 60), m)
         else if h < 120 then (m + c * (2 - h / 60), v, m)
         else if h < 180 then (m, v, m + c * (h / 60 - 2))
         else if h < 240 then (m, m + c * (4 - h / 60), v)
         else if h < 300 then (m + c * (h / 60 - 4), m, v)
         else (v, m, m + c * (6 - h / 60)))"

subsection \<open>The table over the calls of a process\<close>

text \<open>
  A call is the time it reads, the image it finds and its pose results. \<open>run_calls\<close>
  is the table after a sequence of calls; the table of a new process is empty.
\<close>

type_synonym call = "Time \<times> Image option \<times> pose_result list"

fun run_calls :: "externals \<Rightarrow> index_table \<Rightarrow> call list \<Rightarrow> index_table" where
  "run_calls ext tbl [] = tbl"
| "run_calls ext tbl ((time, image_message, pose_results) # calls) =
     run_calls ext (fst (process ext time image_message tbl pose_results)) calls"

definition pose_results_of :: "call list \<Rightarrow> pose_result list" where
  "pose_results_of calls = concat (map (\<lambda>(time, image_message, pose_results). pose_results) calls)"

text \<open>
  The identifiers of \<open>ks\<close> that are not among \<open>seen\<close>, each once, in the order in which
  they first occur.
\<close>

fun first_seen :: "ObjectId list \<Rightarrow> ObjectId list \<Rightarrow> ObjectId list" where
  "first_seen seen [] = []"
| "first_seen seen (k # ks) =
     (if k \<in> set seen then first_seen seen ks else k # first_seen (seen @ [k]) ks)"

text \<open>
  The invariant of the table: no identifier twice, and the entry inserted when the
  table had \<open>j\<close> entries holds the index \<open>j\<close>.
\<close>

definition table_inv :: "index_table \<Rightarrow> bool" where
  "table_inv tbl = (distinct (map fst tbl) \<and> map snd tbl = map of_nat [0..<length tbl])"

subsection \<open>Rotations and quaternions\<close>

text \<open>
  The conversion of a rotation matrix to a quaternion is Eigen's, whose code is not
  under src/. The spec asks for the standard conversion to a unit quaternion and
  accepts any mathematically correct one.
\<close>

text \<open>
  Modelled from the spec: the constructor \<^verbatim>\<open>Eigen::Quaternion<float>(Matrix3f)\<close> is
  missing; what it must satisfy is stated with the rotation matrix of a quaternion
  (x, y, z, w).
\<close>

definition quaternion_matrix :: "Quaternion \<Rightarrow> mat3" where
  "quaternion_matrix q =
     (case q of Quaternion x y z w \<Rightarrow>
        ((1 - 2 * (y * y + z * z), 2 * (x * y - z * w), 2 * (x * z + y * w)),
         (2 * (x * y + z * w), 1 - 2 * (x * x + z * z), 2 * (y * z - x * w)),
         (2 * (x * z - y * w), 2 * (y * z + x * w), 1 - 2 * (x * x + y * y))))"

text \<open>
  Modelled from the spec: the constructor \<^verbatim>\<open>Eigen::Quaternion<float>(Matrix3f)\<close> is
  missing; the spec asks it for a unit quaternion.
\<close>

definition unit_quaternion :: "Quaternion \<Rightarrow> bool" where
  "unit_quaternion q = (case q of Quaternion x y z w \<Rightarrow> x * x + y * y + z * z + w * w = 1)"

text \<open>
  Modelled from the spec: the constructor \<^verbatim>\<open>Eigen::Quaternion<float>(Matrix3f)\<close> is
  missing; a conversion is mathematically correct at \<open>R\<close> when its result
  represents \<open>R\<close>.
\<close>

definition represents :: "Quaternion \<Rightarrow> mat3 \<Rightarrow> bool" where
  "represents q R = (unit_quaternion q \<and> quaternion_matrix q = R)"

text \<open>
  Modelled from the spec: the constructor \<^verbatim>\<open>Eigen::Quaternion<float>(Matrix3f)\<close> is
  missing; this is the standard conversion, by the sign of the trace and then the
  largest entry of the diagonal.
\<close>

definition standard_quaternion :: "mat3 \<Rightarrow> Quaternion" where
  "standard_quaternion R =
     (case R of ((m00, m01, m02), (m10, m11, m12), (m20, m21, m22)) \<Rightarrow>
        if 0 < m00 + m11 + m22 then
          (let t = sqrt (m00 + m11 + m22 + 1)
           in Quaternion ((m21 - m12) * (1 / 2 / t)) ((m02 - m20) * (1 / 2 / t))
                ((m10 - m01) * (1 / 2 / t)) (1 / 2 * t))
        else if \<not> m00 < m11 \<and> \<not> m00 < m22 then
          (let t = sqrt (m00 - m11 - m22 + 1)
           in Quaternion (1 / 2 * t) ((m10 + m01) * (1 / 2 / t))
                ((m20 + m02) * (1 / 2 / t)) ((m21 - m12) * (1 / 2 / t)))
        else if m00 < m11 \<and> \<not> m11 < m22 then
          (let t = sqrt (m11 - m22 - m00 + 1)
           in Quaternion ((m01 + m10) * (1 / 2 / t)) (1 / 2 * t)
                ((m21 + m12) * (1 / 2 / t)) ((m02 - m20) * (1 / 2 / t)))
        else
          (let t = sqrt (m22 - m00 - m11 + 1)
           in Quaternion ((m02 + m20) * (1 / 2 / t)) ((m12 + m21) * (1 / 2 / t))
                (1 / 2 * t) ((m10 - m01) * (1 / 2 / t))))"

definition identity_matrix :: mat3 where
  "identity_matrix = ((1, 0, 0), (0, 1, 0), (0, 0, 1))"

definition rotation_z_180 :: mat3 where
  "rotation_z_180 = ((-1, 0, 0), (0, -1, 0), (0, 0, 1))"

subsection \<open>Inputs of the examples\<close>

text \<open>
  An instance of the code outside the file, for the examples: every pose result
  has both attributes, the conversion is the standard one, and the writer is
  \<open>json_text\<close>.
\<close>

text \<open>
  Modelled from the spec: \<^verbatim>\<open>or_json::write\<close> is missing; the spec asks for the JSON
  text of the value. \<open>json_text\<close> prints it without white space, with a backslash
  before every quote and backslash of a string.
\<close>

fun join :: "string \<Rightarrow> string list \<Rightarrow> string" where
  "join sep [] = []"
| "join sep [s] = s"
| "join sep (s # t # rest) = s @ sep @ join sep (t # rest)"

definition quoted :: "string \<Rightarrow> string" where
  "quoted s =
     [CHR 0x22] @ concat (map (\<lambda>c. if c = CHR 0x22 \<or> c = CHR 0x5C then [CHR 0x5C, c] else [c]) s)
       @ [CHR 0x22]"

primrec json_text :: "mValue \<Rightarrow> string" where
  "json_text (mStr s) = quoted s"
| "json_text (mArray vs) = ''['' @ join '','' (map json_text vs) @ '']''"
| "json_text (mObject kvs) =
     ''{'' @ join '','' (map (\<lambda>(k, t). quoted k @ '':'' @ t) (map (map_prod id json_text) kvs)) @ ''}''"

definition example_externals :: externals where
  "example_externals =
     \<lparr>get_attribute = (\<lambda>pr key.
        if key = ''mesh_uri'' then Some (''package://meshes/'' @ object_id pr)
        else if key = ''name'' then Some (''object '' @ object_id pr)
        else None),
      quaternion_of = standard_quaternion,
      or_json_write = json_text\<rparr>"

definition example_a :: pose_result where
  "example_a = \<lparr>object_id = ''a'', pr_R = identity_matrix, pr_T = (1, 2, 3)\<rparr>"

definition example_b :: pose_result where
  "example_b = \<lparr>object_id = ''b'', pr_R = rotation_z_180, pr_T = (0, 0, 1)\<rparr>"

definition example_c :: pose_result where
  "example_c = \<lparr>object_id = ''c'', pr_R = identity_matrix, pr_T = (0, 1, 0)\<rparr>"

text \<open>
  \<open>n\<close> pose results with \<open>n\<close> different identifiers: the identifier of the one at
  position \<open>j\<close> is the letter x, \<open>j\<close> times.
\<close>

definition numbered_poses :: "nat \<Rightarrow> pose_result list" where
  "numbered_poses n =
     map (\<lambda>j. \<lparr>object_id = replicate j CHR ''x'', pr_R = identity_matrix, pr_T = (0, 0, 0)\<rparr>)
       [0..<n]"

section \<open>Lemmas\<close>

subsection \<open>Rounding\<close>

lemma round_half_even_le: "q \<le> of_int M \<Longrightarrow> round_half_even q \<le> M"
proof -
  assume a: "q \<le> of_int M"
  then have f: "\<lfloor>q\<rfloor> \<le> M" by linarith
  show ?thesis
  proof (cases "\<lfloor>q\<rfloor> = M")
    case True
    then have "q = of_int M" using a by linarith
    then show ?thesis by (simp add: round_half_even_def)
  next
    case False
    then have "\<lfloor>q\<rfloor> + 1 \<le> M" using f by simp
    then show ?thesis using f by (simp add: round_half_even_def Let_def)
  qed
qed

lemma round_half_even_below_half: "q < of_int M + 1 / 2 \<Longrightarrow> round_half_even q \<le> M"
proof -
  assume a: "q < of_int M + 1 / 2"
  then have f: "\<lfloor>q\<rfloor> \<le> M" by linarith
  show ?thesis
  proof (cases "\<lfloor>q\<rfloor> = M")
    case True
    then have "q - of_int \<lfloor>q\<rfloor> < 1 / 2" using a by simp
    then show ?thesis using True by (simp add: round_half_even_def)
  next
    case False
    then have "\<lfloor>q\<rfloor> + 1 \<le> M" using f by simp
    then show ?thesis using f by (simp add: round_half_even_def Let_def)
  qed
qed

lemma round_half_even_ge: "of_int M \<le> q \<Longrightarrow> M \<le> round_half_even q"
proof -
  assume "of_int M \<le> q"
  then have "M \<le> \<lfloor>q\<rfloor>" by (simp add: le_floor_iff)
  then show ?thesis by (simp add: round_half_even_def Let_def)
qed

lemma round_half_even_of_int [simp]: "round_half_even (of_int M) = M"
  by (simp add: round_half_even_def)

lemma round_half_even_tie:
  "round_half_even (of_int M + 1 / 2) = (if even M then M else M + 1)"
proof -
  have "\<lfloor>of_int M + (1 / 2 :: real)\<rfloor> = M" by linarith
  then show ?thesis by (simp add: round_half_even_def)
qed

lemma round_half_even_upper: "of_int (round_half_even q) \<le> q + 1 / 2"
  by (simp add: round_half_even_def Let_def) linarith

lemma round_half_even_lower: "q - 1 / 2 \<le> of_int (round_half_even q)"
  by (simp add: round_half_even_def Let_def) linarith

lemma round_to_binade:
  assumes "2 powr of_int e \<le> x" and "x < 2 powr of_int (e + 1)"
  shows "round_to p x =
           of_int (round_half_even (x / 2 powr of_int (e - int p + 1))) * 2 powr of_int (e - int p + 1)"
proof -
  have "0 < (2::real) powr of_int e"
    by simp
  then have pos: "0 < x"
    using assms(1) by linarith
  have "\<lfloor>log 2 x\<rfloor> = e"
    using assms pos by (simp add: floor_log_eq_powr_iff)
  then show ?thesis
    using pos by (simp add: round_to_def Let_def)
qed

lemma round_to_zero [simp]: "round_to p 0 = 0"
  by (simp add: round_to_def)

lemma binade_exists:
  assumes "0 < x"
  shows "2 powr of_int \<lfloor>log 2 x\<rfloor> \<le> x \<and> x < 2 powr of_int (\<lfloor>log 2 x\<rfloor> + 1)"
  using floor_log_eq_powr_iff [of x 2 "\<lfloor>log 2 x\<rfloor>"] assms by simp

lemma round_to_nonneg: "0 \<le> x \<Longrightarrow> 0 \<le> round_to p x"
proof (cases "x = 0")
  case True
  then show ?thesis by simp
next
  case False
  assume "0 \<le> x"
  then have pos: "0 < x" using False by simp
  let ?e = "\<lfloor>log 2 x\<rfloor>"
  let ?u = "(2::real) powr of_int (?e - int p + 1)"
  have "0 \<le> x / ?u" using pos by simp
  then have "0 \<le> round_half_even (x / ?u)"
    using round_half_even_ge [of 0 "x / ?u"] by simp
  then show ?thesis
    using pos by (simp add: round_to_def Let_def)
qed

lemma round_to_exact:
  assumes "2 powr of_int e \<le> x" and "x < 2 powr of_int (e + 1)"
    and "x / 2 powr of_int (e - int p + 1) = of_int m"
  shows "round_to p x = x"
proof -
  have "round_to p x = of_int m * 2 powr of_int (e - int p + 1)"
    by (simp only: round_to_binade [OF assms(1,2)] assms(3) round_half_even_of_int)
  also have "\<dots> = x"
  proof -
    define u :: real where "u = 2 powr of_int (e - int p + 1)"
    have "u \<noteq> 0" by (simp add: u_def)
    moreover have "x / u = of_int m" using assms(3) by (simp only: u_def)
    ultimately have "of_int m * u = x" by (simp add: field_simps)
    then show ?thesis by (simp only: u_def)
  qed
  finally show ?thesis .
qed

lemma round_to_le_pow:
  assumes "0 \<le> x" and "x < 2 powr of_int k"
  shows "round_to p x \<le> 2 powr of_int k"
proof (cases "x = 0")
  case True
  then show ?thesis by simp
next
  case False
  then have pos: "0 < x" using assms(1) by simp
  let ?e = "\<lfloor>log 2 x\<rfloor>"
  let ?u = "(2::real) powr of_int (?e - int p + 1)"
  have b: "2 powr of_int ?e \<le> x" "x < 2 powr of_int (?e + 1)"
    using binade_exists [OF pos] by simp_all
  have "(2::real) powr of_int ?e < 2 powr of_int k"
    using b(1) assms(2) by linarith
  then have ek: "?e + 1 \<le> k" by simp
  have split: "(2::real) powr of_int (?e + 1) = of_int (2 ^ p) * ?u"
  proof -
    have "(2::real) powr of_int (?e + 1) = 2 powr (real p + of_int (?e - int p + 1))"
      by simp
    also have "\<dots> = 2 powr real p * ?u"
      by (simp only: powr_add)
    also have "\<dots> = of_int (2 ^ p) * ?u"
      by (simp add: powr_realpow)
    finally show ?thesis .
  qed
  have "x / ?u \<le> of_int (2 ^ p)"
    using b(2) split by (simp add: field_simps)
  then have "round_half_even (x / ?u) \<le> 2 ^ p"
    by (rule round_half_even_le)
  then have "of_int (round_half_even (x / ?u)) * ?u \<le> of_int (2 ^ p) * ?u"
    by (intro mult_right_mono) (simp_all only: of_int_le_iff powr_ge_zero)
  then have "round_to p x \<le> 2 powr of_int (?e + 1)"
    by (simp only: round_to_binade [OF b] split)
  also have "\<dots> \<le> 2 powr of_int k"
    using ek by simp
  finally show ?thesis .
qed

lemma binade_top:
  "(2::real) powr of_int (e + 1) = of_int (2 ^ p) * 2 powr of_int (e - int p + 1)"
proof -
  have "(2::real) powr of_int (e + 1) = 2 powr (real p + of_int (e - int p + 1))"
    by simp
  also have "\<dots> = 2 powr real p * 2 powr of_int (e - int p + 1)"
    by (simp only: powr_add)
  also have "\<dots> = of_int (2 ^ p) * 2 powr of_int (e - int p + 1)"
    by (simp add: powr_realpow)
  finally show ?thesis .
qed

lemma round_to_below_half:
  assumes "0 \<le> x"
    and "x < (of_int M + 1 / 2) * 2 powr of_int (k - int p + 1)"
    and "(2::real) powr of_int k \<le> of_int M * 2 powr of_int (k - int p + 1)"
    and "M < 2 ^ p"
  shows "round_to p x \<le> of_int M * 2 powr of_int (k - int p + 1)"
proof (cases "x < 2 powr of_int k")
  case True
  then have "round_to p x \<le> 2 powr of_int k"
    using assms(1) by (intro round_to_le_pow)
  then show ?thesis using assms(3) by linarith
next
  case False
  define u :: real where "u = 2 powr of_int (k - int p + 1)"
  have u: "0 < u" by (simp add: u_def)
  have low: "2 powr of_int k \<le> x" using False by simp
  have "of_int M + (1 / 2 :: real) \<le> of_int (2 ^ p)"
  proof -
    have "M + 1 \<le> 2 ^ p" using assms(4) by simp
    then have "(of_int (M + 1) :: real) \<le> of_int (2 ^ p)" by (simp only: of_int_le_iff)
    then show ?thesis by simp
  qed
  then have "(of_int M + 1 / 2) * u \<le> of_int (2 ^ p) * u"
    using u by (intro mult_right_mono) simp_all
  then have "x < of_int (2 ^ p) * u"
    using assms(2) unfolding u_def by linarith
  then have high: "x < 2 powr of_int (k + 1)"
    by (simp only: binade_top [of k p] u_def)
  have "x / u < of_int M + 1 / 2"
    using assms(2) u by (simp add: u_def field_simps)
  then have "round_half_even (x / u) \<le> M"
    by (rule round_half_even_below_half)
  then have "of_int (round_half_even (x / u)) * u \<le> of_int M * u"
    using u by (intro mult_right_mono) simp_all
  then show ?thesis
    by (simp only: round_to_binade [OF low high] u_def)
qed

lemma round_to_rel_upper:
  assumes "0 \<le> x"
  shows "round_to p x \<le> x * (1 + 1 / 2 ^ p)"
proof (cases "x = 0")
  case True
  then show ?thesis by simp
next
  case False
  then have pos: "0 < x" using assms by simp
  define e where "e = \<lfloor>log 2 x\<rfloor>"
  define u :: real where "u = 2 powr of_int (e - int p + 1)"
  have u: "0 < u" by (simp add: u_def)
  have b: "2 powr of_int e \<le> x" "x < 2 powr of_int (e + 1)"
    using binade_exists [OF pos] by (simp_all add: e_def)
  have "2 powr of_int (e + 1) = of_int (2 ^ p) * u"
    by (simp only: binade_top [of e p] u_def)
  moreover have "(2::real) powr of_int (e + 1) = 2 * 2 powr of_int e"
    by (simp add: powr_add)
  ultimately have half: "u / 2 = 2 powr of_int e / 2 ^ p"
    by (simp add: field_simps)
  have "u / 2 \<le> x / 2 ^ p"
    using b(1) by (simp add: half divide_right_mono)
  moreover have "of_int (round_half_even (x / u)) * u \<le> (x / u + 1 / 2) * u"
    using u round_half_even_upper [of "x / u"] by (intro mult_right_mono) simp_all
  moreover have "(x / u + 1 / 2) * u = x + u / 2"
    using u by (simp add: field_simps)
  ultimately have "of_int (round_half_even (x / u)) * u \<le> x + x / 2 ^ p"
    by linarith
  then show ?thesis
    by (simp only: round_to_binade [OF b] u_def) (simp add: field_simps)
qed

lemma round_to_rel_lower:
  assumes "0 \<le> x"
  shows "x * (1 - 1 / 2 ^ p) \<le> round_to p x"
proof (cases "x = 0")
  case True
  then show ?thesis by simp
next
  case False
  then have pos: "0 < x" using assms by simp
  define e where "e = \<lfloor>log 2 x\<rfloor>"
  define u :: real where "u = 2 powr of_int (e - int p + 1)"
  have u: "0 < u" by (simp add: u_def)
  have b: "2 powr of_int e \<le> x" "x < 2 powr of_int (e + 1)"
    using binade_exists [OF pos] by (simp_all add: e_def)
  have "2 powr of_int (e + 1) = of_int (2 ^ p) * u"
    by (simp only: binade_top [of e p] u_def)
  moreover have "(2::real) powr of_int (e + 1) = 2 * 2 powr of_int e"
    by (simp add: powr_add)
  ultimately have half: "u / 2 = 2 powr of_int e / 2 ^ p"
    by (simp add: field_simps)
  have "u / 2 \<le> x / 2 ^ p"
    using b(1) by (simp add: half divide_right_mono)
  moreover have "(x / u - 1 / 2) * u \<le> of_int (round_half_even (x / u)) * u"
    using u round_half_even_lower [of "x / u"] by (intro mult_right_mono) simp_all
  moreover have "(x / u - 1 / 2) * u = x - u / 2"
    using u by (simp add: field_simps)
  ultimately have "x - x / 2 ^ p \<le> of_int (round_half_even (x / u)) * u"
    by linarith
  then show ?thesis
    by (simp only: round_to_binade [OF b] u_def) (simp add: field_simps)
qed

lemma to_float_le_360: "0 \<le> x \<Longrightarrow> x \<le> 360 \<Longrightarrow> to_float x \<le> 360"
  using round_to_below_half [of x 11796480 8 24]
  by (simp add: to_float_def powr_neg_numeral)

lemma to_float_less_360: "0 \<le> x \<Longrightarrow> x < 360 - 1 / 65536 \<Longrightarrow> to_float x < 360"
  using round_to_below_half [of x 11796479 8 24]
  by (simp add: to_float_def powr_neg_numeral)

lemma to_float_tie_360: "to_float (360 - 1 / 65536) = 360"
proof -
  have "round_to 24 (360 - 1 / 65536) =
      of_int (round_half_even ((360 - 1 / 65536) / 2 powr of_int (8 - int 24 + 1)))
        * 2 powr of_int (8 - int 24 + 1)"
    by (rule round_to_binade) simp_all
  moreover have "(360 - 1 / 65536) / 2 powr of_int (8 - int 24 + 1) = of_int 11796479 + (1 / 2 :: real)"
    by (simp add: powr_neg_numeral)
  ultimately show ?thesis
    by (simp only: to_float_def round_half_even_tie) (simp add: powr_neg_numeral)
qed

lemma double_hue_nonneg: "0 \<le> to_double (to_double (360 / real n) * real i)"
  by (simp add: to_double_def round_to_nonneg)

lemma hue_nonneg: "0 \<le> to_float (to_double (to_double (360 / real n) * real i))"
  unfolding to_float_def
  by (intro round_to_nonneg double_hue_nonneg)

lemma exact_hue_bound:
  assumes "i < n"
  shows "0 \<le> 360 / real n * real i \<and> 360 / real n * real i \<le> 360 * (1 - 1 / real n)"
proof -
  have n: "0 < real n" using assms by simp
  have "real i \<le> real n - 1" using assms by (simp add: of_nat_diff [symmetric] del: of_nat_diff)
  then have "360 / real n * real i \<le> 360 / real n * (real n - 1)"
    using n by (intro mult_left_mono) simp_all
  also have "\<dots> = 360 * (1 - 1 / real n)"
    using n by (simp add: field_simps)
  finally show ?thesis using n by simp
qed

lemma double_hue_upper:
  "to_double (to_double (360 / real n) * real i) \<le>
     360 / real n * real i * ((1 + 1 / 2 ^ 53) * (1 + 1 / 2 ^ 53))"
proof -
  let ?A = "360 / real n"
  let ?E = "1 + 1 / 2 ^ 53 :: real"
  have a: "0 \<le> to_double ?A" "to_double ?A \<le> ?A * ?E"
    by (simp_all only: to_double_def round_to_nonneg round_to_rel_upper divide_nonneg_nonneg
        of_nat_0_le_iff zero_le_numeral)
  have z0: "0 \<le> to_double ?A * real i"
    using a(1) by simp
  have "to_double (to_double ?A * real i) \<le> to_double ?A * real i * ?E"
    using z0 by (simp only: to_double_def round_to_rel_upper)
  also have "\<dots> \<le> ?A * ?E * real i * ?E"
    using a(2) by (intro mult_right_mono) simp_all
  finally show ?thesis by (simp add: mult_ac)
qed

lemma double_hue_lower:
  "360 / real n * real i * ((1 - 1 / 2 ^ 53) * (1 - 1 / 2 ^ 53)) \<le>
     to_double (to_double (360 / real n) * real i)"
proof -
  let ?A = "360 / real n"
  let ?E = "1 - 1 / 2 ^ 53 :: real"
  have a: "0 \<le> to_double ?A" "?A * ?E \<le> to_double ?A"
    by (simp_all only: to_double_def round_to_nonneg round_to_rel_lower divide_nonneg_nonneg
        of_nat_0_le_iff zero_le_numeral)
  have z0: "0 \<le> to_double ?A * real i"
    using a(1) by simp
  have "?A * ?E * real i * ?E \<le> to_double ?A * real i * ?E"
    using a(2) by (intro mult_right_mono) simp_all
  also have "\<dots> \<le> to_double (to_double ?A * real i)"
    using z0 by (simp only: to_double_def round_to_rel_lower)
  finally show ?thesis by (simp add: mult_ac)
qed

lemma hue_le_360:
  assumes "i < n" and "n \<le> 2 ^ 32"
  shows "to_float (to_double (to_double (360 / real n) * real i)) \<le> 360"
proof -
  let ?b = "to_double (to_double (360 / real n) * real i)"
  let ?E = "1 + 1 / 2 ^ 53 :: real"
  have n: "0 < real n" using assms(1) by simp
  have "real n \<le> 2 ^ 32"
    using assms(2) by (metis of_nat_le_iff of_nat_numeral of_nat_power)
  then have "1 / 2 ^ 32 \<le> 1 / real n"
    using n by (intro divide_left_mono) simp_all
  then have "360 * (1 - 1 / real n) \<le> 360 * (1 - 1 / 2 ^ 32)"
    by simp
  then have x: "360 / real n * real i \<le> 360 * (1 - 1 / 2 ^ 32)"
    using exact_hue_bound [OF assms(1)] by linarith
  have "?b \<le> 360 / real n * real i * (?E * ?E)"
    by (rule double_hue_upper)
  also have "\<dots> \<le> 360 * (1 - 1 / 2 ^ 32) * (?E * ?E)"
    using x by (intro mult_right_mono) simp_all
  also have "\<dots> \<le> 360"
    by simp
  finally have "?b \<le> 360" .
  then show ?thesis
    by (intro to_float_le_360 double_hue_nonneg)
qed

lemma hue_less_360:
  assumes "i < n" and "n < 23592960"
  shows "to_float (to_double (to_double (360 / real n) * real i)) < 360"
proof -
  let ?b = "to_double (to_double (360 / real n) * real i)"
  let ?E = "1 + 1 / 2 ^ 53 :: real"
  have n: "0 < real n" using assms(1) by simp
  have "n \<le> 23592959" using assms(2) by simp
  then have "real n \<le> 23592959"
    by (metis of_nat_le_iff of_nat_numeral)
  then have "1 / 23592959 \<le> 1 / real n"
    using n by (intro divide_left_mono) simp_all
  then have "360 * (1 - 1 / real n) \<le> 360 * (1 - 1 / 23592959)"
    by simp
  then have x: "360 / real n * real i \<le> 360 * (1 - 1 / 23592959)"
    using exact_hue_bound [OF assms(1)] by linarith
  have "?b \<le> 360 / real n * real i * (?E * ?E)"
    by (rule double_hue_upper)
  also have "\<dots> \<le> 360 * (1 - 1 / 23592959) * (?E * ?E)"
    using x by (intro mult_right_mono) simp_all
  also have "\<dots> < 360 - 1 / 65536"
    by simp
  finally have "?b < 360 - 1 / 65536" .
  then show ?thesis
    by (intro to_float_less_360 double_hue_nonneg)
qed

lemma hue_close:
  assumes "i < n"
  shows "\<bar>to_float (to_double (to_double (360 / real n) * real i)) - 360 / real n * real i\<bar> \<le> 1 / 40000"
proof -
  let ?x = "360 / real n * real i"
  let ?b = "to_double (to_double (360 / real n) * real i)"
  have x: "0 \<le> ?x" "?x \<le> 360"
    using exact_hue_bound [OF assms] assms by (simp_all add: field_simps)
  have b0: "0 \<le> ?b" by (rule double_hue_nonneg)
  have "to_float (to_double (to_double (360 / real n) * real i)) \<le> ?b * (1 + 1 / 2 ^ 24)"
    using b0 by (simp only: to_float_def round_to_rel_upper)
  also have "\<dots> \<le> ?x * ((1 + 1 / 2 ^ 53) * (1 + 1 / 2 ^ 53)) * (1 + 1 / 2 ^ 24)"
    using double_hue_upper [of n i] by (intro mult_right_mono) simp_all
  also have "\<dots> = ?x + ?x * ((1 + 1 / 2 ^ 53) * (1 + 1 / 2 ^ 53) * (1 + 1 / 2 ^ 24) - 1)"
    by (simp add: algebra_simps)
  also have "\<dots> \<le> ?x + 360 * ((1 + 1 / 2 ^ 53) * (1 + 1 / 2 ^ 53) * (1 + 1 / 2 ^ 24) - 1)"
    using x(2) by (intro add_left_mono mult_right_mono) simp_all
  also have "\<dots> \<le> ?x + 1 / 40000"
    by simp
  finally have up: "to_float (to_double (to_double (360 / real n) * real i)) \<le> ?x + 1 / 40000" .
  have "?x - 1 / 40000 \<le> ?x - 360 * (1 - (1 - 1 / 2 ^ 53) * (1 - 1 / 2 ^ 53) * (1 - 1 / 2 ^ 24))"
    by simp
  also have "\<dots> \<le> ?x - ?x * (1 - (1 - 1 / 2 ^ 53) * (1 - 1 / 2 ^ 53) * (1 - 1 / 2 ^ 24))"
    using x(2) by (intro diff_left_mono mult_right_mono) simp_all
  also have "\<dots> = ?x * ((1 - 1 / 2 ^ 53) * (1 - 1 / 2 ^ 53)) * (1 - 1 / 2 ^ 24)"
    by (simp add: algebra_simps)
  also have "\<dots> \<le> ?b * (1 - 1 / 2 ^ 24)"
    using double_hue_lower [of n i] by (intro mult_right_mono) simp_all
  also have "\<dots> \<le> to_float (to_double (to_double (360 / real n) * real i))"
    using b0 by (simp only: to_float_def round_to_rel_lower)
  finally have low: "?x - 1 / 40000 \<le> to_float (to_double (to_double (360 / real n) * real i))" .
  show ?thesis
    using up low by linarith
qed

lemma to_double_180: "to_double 180 = 180"
  unfolding to_double_def
  by (rule round_to_exact [where e = 7 and m = "180 * 2 ^ 45"]) (simp_all add: powr_neg_numeral)

lemma to_float_180: "to_float 180 = 180"
  unfolding to_float_def
  by (rule round_to_exact [where e = 7 and m = "180 * 2 ^ 16"]) (simp_all add: powr_neg_numeral)

lemma to_double_120: "to_double 120 = 120"
  unfolding to_double_def
  by (rule round_to_exact [where e = 6 and m = "120 * 2 ^ 46"]) (simp_all add: powr_neg_numeral)

lemma to_double_240: "to_double 240 = 240"
  unfolding to_double_def
  by (rule round_to_exact [where e = 7 and m = "240 * 2 ^ 45"]) (simp_all add: powr_neg_numeral)

lemma to_float_240: "to_float 240 = 240"
  unfolding to_float_def
  by (rule round_to_exact [where e = 7 and m = "240 * 2 ^ 16"]) (simp_all add: powr_neg_numeral)

lemma to_double_step: "to_double (1 / 65536) = 1 / 65536"
  unfolding to_double_def
  by (rule round_to_exact [where e = "-16" and m = "2 ^ 52"]) (simp_all add: powr_neg_numeral)

lemma to_double_last: "to_double (360 - 1 / 65536) = 360 - 1 / 65536"
  unfolding to_double_def
  by (rule round_to_exact [where e = 8 and m = "23592959 * 2 ^ 28"]) (simp_all add: powr_neg_numeral)

lemma hue_tie:
  "to_float (to_double (to_double (360 / real 23592960) * real 23592959)) = 360"
proof -
  have a: "360 / real 23592960 = 1 / 65536"
    by simp
  have b: "1 / 65536 * real 23592959 = 360 - 1 / 65536"
    by simp
  show ?thesis
    by (simp only: a to_double_step b to_double_last to_float_tie_360)
qed

lemma round_to_of_nat:
  assumes "n < 2 ^ p"
  shows "round_to p (real n) = real n"
proof (cases "n = 0")
  case True
  then show ?thesis by simp
next
  case False
  then have pos: "0 < real n" by simp
  define e where "e = \<lfloor>log 2 (real n)\<rfloor>"
  have b: "2 powr of_int e \<le> real n" "real n < 2 powr of_int (e + 1)"
    using binade_exists [OF pos] by (simp_all add: e_def)
  have lt: "real n < 2 ^ p"
    using assms by (metis of_nat_less_iff of_nat_numeral of_nat_power)
  have "(2::real) powr of_int (int p) = 2 ^ p"
    by (simp add: powr_realpow)
  then have "(2::real) powr of_int e < 2 powr of_int (int p)"
    using b(1) lt by linarith
  then have "e < int p"
    by simp
  then have k: "0 \<le> int p - 1 - e" by simp
  define k where "k = nat (int p - 1 - e)"
  have ek: "e - int p + 1 = - int k"
    using k by (simp add: k_def)
  have "real n / 2 powr of_int (e - int p + 1) = real n * 2 ^ k"
    unfolding ek by (simp add: powr_minus powr_realpow field_simps)
  also have "\<dots> = of_int (int n * 2 ^ k)"
    by simp
  finally have "real n / 2 powr of_int (e - int p + 1) = of_int (int n * 2 ^ k)" .
  then show ?thesis
    by (rule round_to_exact [OF b])
qed

lemma to_double_of_nat: "n < 2 ^ 53 \<Longrightarrow> to_double (real n) = real n"
  unfolding to_double_def by (rule round_to_of_nat)

lemma to_double_unat: "to_double (real (unat (idx :: 32 word))) = real (unat idx)"
proof -
  have "unat idx < 2 ^ 32"
    using unsigned_less [of idx] by simp
  then have "unat idx < 2 ^ 53"
    by (rule less_trans) simp
  then show ?thesis
    by (rule to_double_of_nat)
qed

subsection \<open>The table\<close>

lemma unat_of_nat_32: "k < 2 ^ 32 \<Longrightarrow> unat (of_nat k :: 32 word) = k"
  by (simp add: unat_of_nat)

lemma sint_of_nat_32: "i < 2 ^ 31 \<Longrightarrow> sint (of_nat i :: 32 word) = int i"
proof -
  assume "i < 2 ^ 31"
  then have "int i < 2 ^ 31" by (simp add: of_nat_less_numeral_power_cancel_iff)
  then have "signed_take_bit 31 (int i) = int i"
    by (intro signed_take_bit_int_eq_self) simp_all
  then show ?thesis by (simp add: signed_of_nat)
qed

lemma update_absent: "map_of tbl k = None \<Longrightarrow> AList.update k v tbl = tbl @ [(k, v)]"
  by (induction tbl) (auto split: if_splits)

lemma map_assign_size_absent:
  "map_of tbl k = None \<Longrightarrow> map_assign_size tbl k = tbl @ [(k, of_nat (length tbl))]"
proof -
  assume absent: "map_of tbl k = None"
  have sub: "map_subscript tbl k = (0, AList.update k 0 tbl)"
    using absent by (simp add: map_subscript_def)
  have "map_assign_size tbl k = AList.update k (of_nat (length tbl)) tbl"
    by (simp add: map_assign_size_def sub map_size_def)
  then show ?thesis
    by (simp add: update_absent [OF absent])
qed

lemma register_ids_prefix: "prefix tbl (register_ids tbl prs)"
proof (induction prs arbitrary: tbl)
  case Nil
  show ?case by simp
next
  case (Cons pr prs)
  show ?case
  proof (cases "map_of tbl (object_id pr)")
    case None
    have "prefix (tbl @ [(object_id pr, of_nat (length tbl))]) (register_ids (tbl @ [(object_id pr, of_nat (length tbl))]) prs)"
      by (rule Cons.IH)
    then have "prefix tbl (register_ids (tbl @ [(object_id pr, of_nat (length tbl))]) prs)"
      using append_prefixD by blast
    then show ?thesis using None by (simp add: map_find_def map_assign_size_absent)
  next
    case (Some v)
    then show ?thesis using Cons.IH [of tbl] by (simp add: map_find_def)
  qed
qed

lemma register_ids_keys:
  "fst ` set (register_ids tbl prs) = fst ` set tbl \<union> object_id ` set prs"
proof (induction prs arbitrary: tbl)
  case Nil
  show ?case by simp
next
  case (Cons pr prs)
  show ?case
  proof (cases "map_of tbl (object_id pr)")
    case None
    then show ?thesis
      using Cons.IH [of "tbl @ [(object_id pr, of_nat (length tbl))]"]
      by (auto simp add: map_find_def map_assign_size_absent)
  next
    case (Some v)
    then have "object_id pr \<in> fst ` set tbl"
      by (metis map_of_eq_None_iff option.distinct(1))
    then show ?thesis using Some Cons.IH [of tbl] by (auto simp add: map_find_def)
  qed
qed

lemma register_ids_distinct:
  "distinct (map fst tbl) \<Longrightarrow> distinct (map fst (register_ids tbl prs))"
proof (induction prs arbitrary: tbl)
  case Nil
  then show ?case by simp
next
  case (Cons pr prs)
  show ?case
  proof (cases "map_of tbl (object_id pr)")
    case None
    then have "object_id pr \<notin> fst ` set tbl" by (simp add: map_of_eq_None_iff)
    then have "distinct (map fst (tbl @ [(object_id pr, of_nat (length tbl))]))"
      using Cons.prems by simp
    then show ?thesis using None Cons.IH by (simp add: map_find_def map_assign_size_absent)
  next
    case (Some v)
    then show ?thesis using Cons by (simp add: map_find_def)
  qed
qed

lemma register_ids_numbered:
  "map snd tbl = map of_nat [0..<length tbl] \<Longrightarrow>
   map snd (register_ids tbl prs) = map of_nat [0..<length (register_ids tbl prs)]"
proof (induction prs arbitrary: tbl)
  case Nil
  then show ?case by simp
next
  case (Cons pr prs)
  show ?case
  proof (cases "map_of tbl (object_id pr)")
    case None
    have "map snd (tbl @ [(object_id pr, of_nat (length tbl))]) =
          map of_nat [0..<length (tbl @ [(object_id pr, of_nat (length tbl) :: 32 word)])]"
      using Cons.prems by simp
    then show ?thesis using None Cons.IH by (simp add: map_find_def map_assign_size_absent)
  next
    case (Some v)
    then show ?thesis using Cons by (simp add: map_find_def)
  qed
qed

lemma register_ids_append:
  "register_ids tbl (prs @ prs') = register_ids (register_ids tbl prs) prs'"
  by (induction prs arbitrary: tbl) simp_all

lemma register_ids_first_seen:
  "map fst (register_ids tbl prs) = map fst tbl @ first_seen (map fst tbl) (map object_id prs)"
proof (induction prs arbitrary: tbl)
  case Nil
  show ?case by simp
next
  case (Cons pr prs)
  show ?case
  proof (cases "map_of tbl (object_id pr)")
    case None
    then have "object_id pr \<notin> fst ` set tbl" by (simp add: map_of_eq_None_iff)
    then show ?thesis
      using None Cons.IH [of "tbl @ [(object_id pr, of_nat (length tbl))]"]
      by (simp add: map_find_def map_assign_size_absent)
  next
    case (Some v)
    then have "object_id pr \<in> fst ` set tbl"
      by (metis map_of_eq_None_iff option.distinct(1))
    then show ?thesis using Some Cons.IH [of tbl] by (simp add: map_find_def)
  qed
qed

lemma prefix_map_of:
  "prefix tbl tbl' \<Longrightarrow> map_of tbl k = Some v \<Longrightarrow> map_of tbl' k = Some v"
  by (auto simp add: prefix_def)

lemma register_ids_first_sight:
  assumes "map_of (register_ids tbl before) (object_id pr) = None"
  shows "map_of (register_ids tbl (before @ pr # rest)) (object_id pr) =
           Some (of_nat (length (register_ids tbl before)))"
proof -
  let ?t = "register_ids tbl before"
  have "register_ids tbl (before @ pr # rest) =
          register_ids (?t @ [(object_id pr, of_nat (length ?t))]) rest"
    using assms by (simp add: register_ids_append map_find_def map_assign_size_absent)
  moreover have "map_of (?t @ [(object_id pr, of_nat (length ?t))]) (object_id pr) =
          Some (of_nat (length ?t))"
    using assms by (simp add: map_add_def)
  ultimately show ?thesis
    using prefix_map_of [OF register_ids_prefix] by metis
qed

lemma table_inv_empty: "table_inv []"
  by (simp add: table_inv_def)

lemma table_inv_register_ids: "table_inv tbl \<Longrightarrow> table_inv (register_ids tbl prs)"
  by (simp add: table_inv_def register_ids_distinct register_ids_numbered)

lemma table_inv_nth:
  assumes "table_inv tbl" and "j < length tbl" and "length tbl \<le> 2 ^ 32"
  shows "unat (snd (tbl ! j)) = j"
proof -
  have "snd (tbl ! j) = map snd tbl ! j"
    using assms(2) by simp
  also have "\<dots> = of_nat j"
    using assms(1,2) by (simp add: table_inv_def)
  finally show ?thesis
    using assms(2,3) by (simp add: unat_of_nat_32)
qed

lemma table_inv_index:
  assumes "table_inv tbl" and "map_of tbl k = Some idx" and "length tbl \<le> 2 ^ 32"
  shows "unat idx < length tbl"
proof -
  have "(k, idx) \<in> set tbl"
    using assms(2) by (rule map_of_SomeD)
  then obtain j where j: "j < length tbl" "tbl ! j = (k, idx)"
    by (auto simp add: in_set_conv_nth)
  then show ?thesis
    using table_inv_nth [OF assms(1) j(1) assms(3)] by simp
qed

lemma table_size_card: "table_inv tbl \<Longrightarrow> map_size tbl = card (fst ` set tbl)"
  using distinct_card [of "map fst tbl"] by (simp add: table_inv_def map_size_def)

subsection \<open>The second loop\<close>

lemma loop_body_table:
  "map_of tbl (object_id pr) \<noteq> None \<Longrightarrow>
   fst (loop_body ext hdr tbl poses0 markers0 marker_id pr) = tbl"
  by (auto simp add: loop_body_def map_subscript_def Let_def split: prod.splits option.splits)

lemma loop_body_ok:
  assumes "map_of tbl (object_id pr) \<noteq> None"
    and "get_attribute ext pr ''mesh_uri'' \<noteq> None"
    and "get_attribute ext pr ''name'' \<noteq> None"
  shows "loop_body ext hdr tbl poses0 markers0 marker_id pr =
     (tbl, Inr (poses0[unat marker_id := msg_pose_of ext pr],
                markers0 @ [mesh_marker_of ext hdr tbl marker_id pr,
                            text_marker_of ext hdr tbl marker_id pr]))"
  using assms
  by (auto simp add: loop_body_def map_subscript_def Let_def msg_pose_of_def hue_of_def
      mesh_marker_of_def text_marker_of_def attribute_of_def default_Marker_def
      split: prod.splits option.splits)

lemma length_markers_from: "length (markers_from ext hdr tbl marker_id prs) = 2 * length prs"
  by (induction prs arbitrary: marker_id) simp_all

lemma markers_from_even:
  "i < length prs \<Longrightarrow>
   markers_from ext hdr tbl marker_id prs ! (2 * i) =
     mesh_marker_of ext hdr tbl (marker_id + of_nat i) (prs ! i)"
proof (induction prs arbitrary: marker_id i)
  case Nil
  then show ?case by simp
next
  case (Cons pr prs)
  show ?case
  proof (cases i)
    case 0
    then show ?thesis by simp
  next
    case (Suc j)
    then have "j < length prs" using Cons.prems by simp
    then show ?thesis using Suc Cons.IH [of j "marker_id + 1"] by (simp add: add.assoc)
  qed
qed

lemma markers_from_odd:
  "i < length prs \<Longrightarrow>
   markers_from ext hdr tbl marker_id prs ! Suc (2 * i) =
     text_marker_of ext hdr tbl (marker_id + of_nat i) (prs ! i)"
proof (induction prs arbitrary: marker_id i)
  case Nil
  then show ?case by simp
next
  case (Cons pr prs)
  show ?case
  proof (cases i)
    case 0
    then show ?thesis by simp
  next
    case (Suc j)
    then have "j < length prs" using Cons.prems by simp
    then show ?thesis using Suc Cons.IH [of j "marker_id + 1"] by (simp add: add.assoc)
  qed
qed

lemma fill_loop_table:
  "\<forall>pr\<in>set prs. map_of tbl (object_id pr) \<noteq> None \<Longrightarrow>
   fst (fill_loop ext hdr tbl poses0 markers0 marker_id prs) = tbl"
proof (induction prs arbitrary: poses0 markers0 marker_id)
  case Nil
  show ?case by simp
next
  case (Cons pr prs)
  have present: "map_of tbl (object_id pr) \<noteq> None" using Cons.prems by simp
  have rest: "\<forall>pr\<in>set prs. map_of tbl (object_id pr) \<noteq> None" using Cons.prems by simp
  obtain res where body: "loop_body ext hdr tbl poses0 markers0 marker_id pr = (tbl, res)"
    using loop_body_table [OF present, of ext hdr poses0 markers0 marker_id]
    by (cases "loop_body ext hdr tbl poses0 markers0 marker_id pr") simp
  show ?case
  proof (cases res)
    case (Inl e)
    then show ?thesis using body by simp
  next
    case (Inr pm)
    then show ?thesis using body Cons.IH [OF rest] by (cases pm) simp
  qed
qed

lemma fill_loop_ok:
  assumes "\<forall>pr\<in>set prs. map_of tbl (object_id pr) \<noteq> None"
    and "attrs_ok ext prs"
    and "k + length prs \<le> length poses0"
    and "k + length prs \<le> 2 ^ 32"
  shows "fill_loop ext hdr tbl poses0 markers0 (of_nat k) prs =
     (tbl, Inr (take k poses0 @ map (msg_pose_of ext) prs @ drop (k + length prs) poses0,
                markers0 @ markers_from ext hdr tbl (of_nat k) prs))"
  using assms
proof (induction prs arbitrary: k poses0 markers0)
  case Nil
  then show ?case by simp
next
  case (Cons pr prs)
  have present: "map_of tbl (object_id pr) \<noteq> None" using Cons.prems(1) by simp
  have a1: "get_attribute ext pr ''mesh_uri'' \<noteq> None" and a2: "get_attribute ext pr ''name'' \<noteq> None"
    using Cons.prems(2) by (simp_all add: attrs_ok_def)
  have k_lt: "k < length poses0" and k_small: "k < 2 ^ 32"
    using Cons.prems(3,4) by simp_all
  let ?poses1 = "poses0[k := msg_pose_of ext pr]"
  let ?markers1 = "markers0 @ [mesh_marker_of ext hdr tbl (of_nat k) pr, text_marker_of ext hdr tbl (of_nat k) pr]"
  have body: "loop_body ext hdr tbl poses0 markers0 (of_nat k) pr = (tbl, Inr (?poses1, ?markers1))"
    using loop_body_ok [OF present a1 a2, of hdr poses0 markers0 "of_nat k"] k_small
    by (simp add: unat_of_nat_32)
  have ih: "fill_loop ext hdr tbl ?poses1 ?markers1 (of_nat k + 1) prs =
     (tbl, Inr (take (Suc k) ?poses1 @ map (msg_pose_of ext) prs @ drop (Suc k + length prs) ?poses1,
                ?markers1 @ markers_from ext hdr tbl (of_nat k + 1) prs))"
    using Cons.IH [of "Suc k" ?poses1 ?markers1] Cons.prems
    by (simp add: attrs_ok_def add.commute)
  have t: "take (Suc k) ?poses1 = take k poses0 @ [msg_pose_of ext pr]"
    using k_lt by (simp add: take_Suc_conv_app_nth)
  show ?case
    by (simp add: body ih t)
qed

lemma fill_loop_markers:
  assumes "\<forall>pr\<in>set prs. map_of tbl (object_id pr) \<noteq> None"
    and "attrs_ok ext prs"
  shows "\<exists>poses1. fill_loop ext hdr tbl poses0 markers0 marker_id prs =
           (tbl, Inr (poses1, markers0 @ markers_from ext hdr tbl marker_id prs))"
  using assms
proof (induction prs arbitrary: poses0 markers0 marker_id)
  case Nil
  show ?case by simp
next
  case (Cons pr prs)
  have present: "map_of tbl (object_id pr) \<noteq> None" using Cons.prems(1) by simp
  have a1: "get_attribute ext pr ''mesh_uri'' \<noteq> None" and a2: "get_attribute ext pr ''name'' \<noteq> None"
    using Cons.prems(2) by (simp_all add: attrs_ok_def)
  let ?poses1 = "poses0[unat marker_id := msg_pose_of ext pr]"
  let ?markers1 = "markers0 @ [mesh_marker_of ext hdr tbl marker_id pr, text_marker_of ext hdr tbl marker_id pr]"
  have body: "loop_body ext hdr tbl poses0 markers0 marker_id pr = (tbl, Inr (?poses1, ?markers1))"
    by (rule loop_body_ok [OF present a1 a2])
  obtain poses2 where "fill_loop ext hdr tbl ?poses1 ?markers1 (marker_id + 1) prs =
      (tbl, Inr (poses2, ?markers1 @ markers_from ext hdr tbl (marker_id + 1) prs))"
    using Cons.IH [of ?poses1 ?markers1 "marker_id + 1"] Cons.prems
    by (auto simp add: attrs_ok_def)
  then show ?case
    by (simp add: body)
qed

lemma upt_two: "[0..<2 * Suc n] = 0 # 1 # map (\<lambda>j. j + 2) [0..<2 * n]"
proof (rule nth_equalityI)
  show "length [0..<2 * Suc n] = length (0 # 1 # map (\<lambda>j. j + 2) [0..<2 * n])"
    by simp
next
  fix i
  assume "i < length [0..<2 * Suc n]"
  then have "i < 2 * Suc n" by simp
  then have "[0..<2 * Suc n] ! i = i"
    using nth_upt [of 0 i "2 * Suc n"] by simp
  moreover have "(0 # 1 # map (\<lambda>j. j + 2) [0..<2 * n]) ! i = i"
    using \<open>i < 2 * Suc n\<close> by (cases i; cases "i - 1") (auto simp del: upt_Suc)
  ultimately show "[0..<2 * Suc n] ! i = (0 # 1 # map (\<lambda>j. j + 2) [0..<2 * n]) ! i"
    by simp
qed

lemma markers_from_ids:
  assumes "k + length prs \<le> 2 ^ 31"
  shows "map m_id (markers_from ext hdr tbl (of_nat k) prs) =
           map (\<lambda>j. int (k + j div 2)) [0..<2 * length prs]"
  using assms
proof (induction prs arbitrary: k)
  case Nil
  show ?case by simp
next
  case (Cons pr prs)
  have k: "sint (of_nat k :: 32 word) = int k"
    using Cons.prems by (intro sint_of_nat_32) simp
  have ih: "map m_id (markers_from ext hdr tbl (of_nat k + 1) prs) =
           map (\<lambda>j. int (Suc k + j div 2)) [0..<2 * length prs]"
    using Cons.IH [of "Suc k"] Cons.prems by (simp add: add.commute)
  have "[0..<2 * length (pr # prs)] = 0 # 1 # map (\<lambda>j. j + 2) [0..<2 * length prs]"
    using upt_two [of "length prs"] by simp
  then show ?case
    by (simp add: ih k mesh_marker_of_def text_marker_of_def comp_def del: upt_Suc)
qed

subsection \<open>The whole call\<close>

lemma register_ids_present:
  "pr \<in> set prs \<Longrightarrow> map_of (register_ids tbl prs) (object_id pr) \<noteq> None"
proof -
  assume "pr \<in> set prs"
  then have "object_id pr \<in> fst ` set (register_ids tbl prs)"
    by (simp add: register_ids_keys)
  then show ?thesis by (simp add: map_of_eq_None_iff)
qed

lemma process_table: "fst (process ext time image_message tbl prs) = register_ids tbl prs"
proof -
  have "fst (fill_loop ext hdr (register_ids tbl prs) poses0 [] 0 prs) = register_ids tbl prs"
    for hdr poses0
    by (rule fill_loop_table) (simp add: register_ids_present)
  then show ?thesis
    by (auto simp add: process_def Let_def split: prod.splits sum.splits dest: arg_cong [where f = fst])
qed

lemma process_ok:
  assumes "attrs_ok ext prs" and "length prs \<le> 2 ^ 32"
  shows "process ext time image_message tbl prs =
     (register_ids tbl prs,
      Inr \<lparr>pose_message =
             \<lparr>pa_header = header_of time image_message, poses = map (msg_pose_of ext) prs\<rparr>,
           object_ids_message = \<lparr>data = or_json_write ext (object_ids_param_tree prs)\<rparr>,
           marker_message =
             \<lparr>markers = markers_from ext (header_of time image_message)
                          (register_ids tbl prs) 0 prs\<rparr>\<rparr>)"
proof -
  have "fill_loop ext hdr (register_ids tbl prs) (replicate (length prs) default_Pose) [] (of_nat 0) prs =
     (register_ids tbl prs,
      Inr (take 0 (replicate (length prs) default_Pose) @ map (msg_pose_of ext) prs
             @ drop (0 + length prs) (replicate (length prs) default_Pose),
           [] @ markers_from ext hdr (register_ids tbl prs) (of_nat 0) prs))" for hdr
    using assms by (intro fill_loop_ok) (simp_all add: register_ids_present)
  then show ?thesis
    by (simp add: process_def Let_def header_of_def)
qed

lemma process_completes:
  assumes "attrs_ok ext prs"
  shows "\<exists>poses1. process ext time image_message tbl prs =
     (register_ids tbl prs,
      Inr \<lparr>pose_message = \<lparr>pa_header = header_of time image_message, poses = poses1\<rparr>,
           object_ids_message = \<lparr>data = or_json_write ext (object_ids_param_tree prs)\<rparr>,
           marker_message =
             \<lparr>markers = markers_from ext (header_of time image_message)
                          (register_ids tbl prs) 0 prs\<rparr>\<rparr>)"
proof -
  obtain poses1 where "fill_loop ext (header_of time image_message) (register_ids tbl prs)
      (replicate (length prs) default_Pose) [] 0 prs =
     (register_ids tbl prs,
      Inr (poses1, [] @ markers_from ext (header_of time image_message) (register_ids tbl prs) 0 prs))"
    using fill_loop_markers [OF _ assms, of "register_ids tbl prs"] register_ids_present
    by blast
  then show ?thesis
    by (simp add: process_def Let_def header_of_def)
qed

lemma attrs_ok_example: "attrs_ok example_externals prs"
  by (induction prs) (simp_all add: attrs_ok_def example_externals_def)

lemma hue_of_present:
  "map_of tbl k = Some idx \<Longrightarrow>
   hue_of tbl k =
     to_float (to_double (to_double (360 / to_double (real (map_size tbl)))
                            * to_double (real (unat idx))))"
  by (simp add: hue_of_def map_subscript_def)

lemma attrs_ok_nth:
  "attrs_ok ext prs \<Longrightarrow> i < length prs \<Longrightarrow>
   get_attribute ext (prs ! i) ''mesh_uri'' = Some (attribute_of ext (prs ! i) ''mesh_uri'')
   \<and> get_attribute ext (prs ! i) ''name'' = Some (attribute_of ext (prs ! i) ''name'')"
  by (auto simp add: attrs_ok_def list_all_length attribute_of_def)

lemma run_calls_register:
  "run_calls ext tbl calls = register_ids tbl (pose_results_of calls)"
proof (induction calls arbitrary: tbl)
  case Nil
  show ?case by (simp add: pose_results_of_def)
next
  case (Cons c calls)
  obtain time image_message pose_results where c: "c = (time, image_message, pose_results)"
    by (cases c) auto
  show ?case
    using Cons.IH [of "register_ids tbl pose_results"]
    by (simp add: c process_table pose_results_of_def register_ids_append)
qed

subsection \<open>Hues and colours\<close>

lemma fmodf_2:
  assumes "real_of_int k * 2 \<le> a" and "a < real_of_int k * 2 + 2" and "0 \<le> a"
  shows "fmodf a 2 = a - 2 * real_of_int k"
proof -
  have "\<lfloor>a / 2\<rfloor> = k"
    using assms by (intro floor_unique) simp_all
  then show ?thesis using assms by (simp add: fmodf_def)
qed

lemma hsv2rgb_sectors:
  assumes "0 \<le> h" and "h < 360"
  shows "hsv2rgb h s v = hsv_sectors h s v"
proof -
  consider "h < 60" | "60 \<le> h" "h < 120" | "120 \<le> h" "h < 180" | "180 \<le> h" "h < 240"
    | "240 \<le> h" "h < 300" | "300 \<le> h"
    by linarith
  then show ?thesis
  proof cases
    case 1
    then have f: "fmodf (h / 60) 2 = h / 60"
      using fmodf_2 [of 0 "h / 60"] assms by simp
    show ?thesis unfolding hsv2rgb_def hsv_sectors_def Let_def f using 1 assms
      by (simp add: algebra_simps)
  next
    case 2
    then have f: "fmodf (h / 60) 2 = h / 60"
      using fmodf_2 [of 0 "h / 60"] assms by simp
    show ?thesis unfolding hsv2rgb_def hsv_sectors_def Let_def f using 2 assms
      by (simp add: algebra_simps)
  next
    case 3
    then have f: "fmodf (h / 60) 2 = h / 60 - 2"
      using fmodf_2 [of 1 "h / 60"] assms by simp
    show ?thesis unfolding hsv2rgb_def hsv_sectors_def Let_def f using 3 assms
      by (simp add: algebra_simps)
  next
    case 4
    then have f: "fmodf (h / 60) 2 = h / 60 - 2"
      using fmodf_2 [of 1 "h / 60"] assms by simp
    show ?thesis unfolding hsv2rgb_def hsv_sectors_def Let_def f using 4 assms
      by (simp add: algebra_simps)
  next
    case 5
    then have f: "fmodf (h / 60) 2 = h / 60 - 4"
      using fmodf_2 [of 2 "h / 60"] assms by simp
    show ?thesis unfolding hsv2rgb_def hsv_sectors_def Let_def f using 5 assms
      by (simp add: algebra_simps)
  next
    case 6
    then have f: "fmodf (h / 60) 2 = h / 60 - 4"
      using fmodf_2 [of 2 "h / 60"] assms by simp
    show ?thesis unfolding hsv2rgb_def hsv_sectors_def Let_def f using 6 assms
      by (simp add: algebra_simps)
  qed
qed

lemma hsv2rgb_samples:
  "hsv2rgb 0 (7 / 10) 1 = (1, 3 / 10, 3 / 10)"
  "hsv2rgb 120 (7 / 10) 1 = (3 / 10, 1, 3 / 10)"
  "hsv2rgb 240 (7 / 10) 1 = (3 / 10, 3 / 10, 1)"
  by (simp_all add: hsv2rgb_def fmodf_def Let_def)

lemma hsv2rgb_360: "hsv2rgb 360 (7 / 10) 1 = (3 / 10, 3 / 10, 3 / 10)"
  by (simp add: hsv2rgb_def fmodf_def Let_def)

lemma to_double_small:
  "to_double 1 = 1" "to_double 2 = 2" "to_double 3 = 3"
  using to_double_of_nat [of 1] to_double_of_nat [of 2] to_double_of_nat [of 3]
  by simp_all

lemma hue_conversions:
  assumes "length tbl \<le> 2 ^ 32"
  shows "to_float (to_double (to_double (360 / to_double (real (map_size tbl)))
                                * to_double (real (unat (idx :: 32 word))))) =
         to_float (to_double (to_double (360 / real (length tbl)) * real (unat idx)))"
proof -
  have "length tbl < 2 ^ 53"
    using assms by (rule le_less_trans) simp
  then have "to_double (real (length tbl)) = real (length tbl)"
    by (rule to_double_of_nat)
  then show ?thesis
    by (simp only: map_size_def to_double_unat)
qed

lemma hue_range:
  assumes "table_inv tbl" and "map_of tbl k = Some idx" and "length tbl \<le> 2 ^ 32"
    and "hue = to_float (to_double (to_double (360 / to_double (real (map_size tbl)))
                                      * to_double (real (unat idx))))"
  shows "0 \<le> hue" and "hue \<le> 360"
    and "\<bar>hue - 360 / real (map_size tbl) * real (unat idx)\<bar> \<le> 1 / 40000"
    and "map_size tbl < 23592960 \<longrightarrow> hue < 360"
proof -
  have lt: "unat idx < length tbl"
    using assms(1,2,3) by (rule table_inv_index)
  have hue: "hue = to_float (to_double (to_double (360 / real (length tbl)) * real (unat idx)))"
    using assms(4) by (simp only: hue_conversions [OF assms(3)])
  show "0 \<le> hue"
    unfolding hue by (rule hue_nonneg)
  show "hue \<le> 360"
    unfolding hue using lt assms(3) by (rule hue_le_360)
  show "\<bar>hue - 360 / real (map_size tbl) * real (unat idx)\<bar> \<le> 1 / 40000"
    unfolding hue map_size_def using lt by (rule hue_close)
  show "map_size tbl < 23592960 \<longrightarrow> hue < 360"
    unfolding hue map_size_def using hue_less_360 [OF lt] by blast
qed

subsection \<open>A table of 23592960 entries\<close>

lemma register_numbered_poses:
  "register_ids [] (numbered_poses n) = map (\<lambda>j. (replicate j CHR ''x'', of_nat j)) [0..<n]"
proof (induction n)
  case 0
  show ?case by (simp add: numbered_poses_def)
next
  case (Suc n)
  let ?t = "map (\<lambda>j. (replicate j CHR ''x'', of_nat j :: 32 word)) [0..<n]"
  let ?p = "\<lparr>object_id = replicate n CHR ''x'', pr_R = identity_matrix, pr_T = (0, 0, 0)\<rparr>"
  have split: "numbered_poses (Suc n) = numbered_poses n @ [?p]"
    by (simp add: numbered_poses_def)
  have "replicate n CHR ''x'' \<notin> fst ` set ?t"
  proof
    assume "replicate n CHR ''x'' \<in> fst ` set ?t"
    then obtain j where "j < n" and "replicate n CHR ''x'' = replicate j CHR ''x''"
      by auto
    then have "n = j"
      using arg_cong [where f = length] by fastforce
    then show False using \<open>j < n\<close> by simp
  qed
  then have absent: "map_of ?t (replicate n CHR ''x'') = None"
    by (simp add: map_of_eq_None_iff)
  have "register_ids ?t [?p] = ?t @ [(replicate n CHR ''x'', of_nat (length ?t))]"
    using absent by (simp add: map_find_def map_assign_size_absent)
  then show ?case
    by (simp add: split register_ids_append Suc.IH)
qed

lemma numbered_poses_table:
  "map_size (register_ids [] (numbered_poses n)) = n"
  "i < n \<Longrightarrow>
   map_of (register_ids [] (numbered_poses n)) (object_id (numbered_poses n ! i)) = Some (of_nat i)"
proof -
  show "map_size (register_ids [] (numbered_poses n)) = n"
    by (simp add: register_numbered_poses map_size_def)
next
  assume i: "i < n"
  let ?f = "\<lambda>j. (replicate j CHR ''x'', of_nat j :: 32 word)"
  have "inj_on (\<lambda>j. replicate j CHR ''x'') (set [0..<n])"
    by (rule inj_onI) (metis length_replicate)
  then have "distinct (map fst (map ?f [0..<n]))"
    by (simp add: comp_def distinct_map)
  moreover have "(replicate i CHR ''x'', of_nat i) \<in> set (map ?f [0..<n])"
    using i by auto
  ultimately have "map_of (map ?f [0..<n]) (replicate i CHR ''x'') = Some (of_nat i)"
    by (rule map_of_is_SomeI)
  moreover have "object_id (numbered_poses n ! i) = replicate i CHR ''x''"
    using i by (simp add: numbered_poses_def)
  ultimately show "map_of (register_ids [] (numbered_poses n)) (object_id (numbered_poses n ! i)) =
      Some (of_nat i)"
    by (simp only: register_numbered_poses)
qed

subsection \<open>Quaternions of two rotations\<close>

lemma represents_identity:
  assumes "represents q identity_matrix"
  shows "q = Quaternion 0 0 0 1 \<or> q = Quaternion 0 0 0 (- 1)"
proof (cases q)
  case (Quaternion x y z w)
  have m: "1 - 2 * (y * y + z * z) = 1" "1 - 2 * (x * x + z * z) = 1"
    and u: "x * x + y * y + z * z + w * w = 1"
    using assms
    by (simp_all add: represents_def unit_quaternion_def quaternion_matrix_def
        identity_matrix_def Quaternion)
  have "y * y + z * z = 0" using m(1) by argo
  then have yz: "y = 0" "z = 0"
    using sum_squares_eq_zero_iff [of y z] by blast+
  have "x * x + z * z = 0" using m(2) by argo
  then have x: "x = 0"
    using sum_squares_eq_zero_iff [of x z] by blast
  have "w * w = 1" using u by (simp add: x yz)
  then have "w = 1 \<or> w = - 1" by (simp add: square_eq_1_iff)
  then show ?thesis by (auto simp add: Quaternion x yz)
qed

lemma represents_rotation_z_180:
  assumes "represents q rotation_z_180"
  shows "q = Quaternion 0 0 1 0 \<or> q = Quaternion 0 0 (- 1) 0"
proof (cases q)
  case (Quaternion x y z w)
  have m: "1 - 2 * (y * y + z * z) = - 1" "1 - 2 * (x * x + y * y) = 1"
    and u: "x * x + y * y + z * z + w * w = 1"
    using assms
    by (simp_all add: represents_def unit_quaternion_def quaternion_matrix_def
        rotation_z_180_def Quaternion)
  have "x * x + y * y = 0" using m(2) by argo
  then have xy: "x = 0" "y = 0"
    using sum_squares_eq_zero_iff [of x y] by blast+
  have zz: "z * z = 1" using m(1) by (simp add: xy)
  then have "w * w = 0" using u by (simp add: xy)
  then have w: "w = 0" by simp
  have "z = 1 \<or> z = - 1" using zz by (simp add: square_eq_1_iff)
  then show ?thesis by (auto simp add: Quaternion xy w)
qed

lemma standard_quaternion_examples:
  "standard_quaternion identity_matrix = Quaternion 0 0 0 1"
  "standard_quaternion rotation_z_180 = Quaternion 0 0 1 0"
  by (simp_all add: standard_quaternion_def identity_matrix_def rotation_z_180_def)

subsection \<open>The examples\<close>

lemma example_table:
  "register_ids [] [example_a, example_b, example_a] = [(''a'', 0), (''b'', 1)]"
  by (simp add: example_a_def example_b_def map_find_def map_assign_size_def
      map_subscript_def map_size_def)

lemma example_table_ab:
  "register_ids [] [example_a, example_b] = [(''a'', 0), (''b'', 1)]"
  by (simp add: example_a_def example_b_def map_find_def map_assign_size_def
      map_subscript_def map_size_def)

lemma example_table_bc:
  "register_ids [(''a'', 0), (''b'', 1)] [example_b, example_c, example_c] =
     [(''a'', 0), (''b'', 1), (''c'', 2)]"
  by (simp add: example_b_def example_c_def map_find_def map_assign_size_def
      map_subscript_def map_size_def)

subsection \<open>The colour of a mesh marker\<close>

text \<open>
  Let the table before the call be the table that earlier calls of the process have
  left, let it have at most \<open>2^32\<close> entries after the call, and let the attribute
  lookups return. After the first loop the table holds the identifiers of all pose
  results of the earlier calls and of this call, and its size is the number of
  distinct ones. For the pose result at position \<open>i\<close>, with \<open>idx\<close> the index the table
  holds for its identifier, the hue is the product \<open>360 / size * idx\<close> as the code
  computes it: the quotient and the product rounded to double, the result rounded to
  float. It is within \<open>1 / 40000\<close> of the exact product and lies in \<open>[0, 360]\<close>; it is
  below 360 when the table has fewer than 23592960 entries. The colour of the mesh
  marker is what \<open>hsv2rgb\<close> gives for that hue, saturation 0.7 and value 1, with alpha
  0.75: the colour of the conversion by six sectors when the hue is below 360, and
  (0.3, 0.3, 0.3) when it is 360, where no branch of \<open>hsv2rgb\<close> is taken. The hues 0,
  120 and 240 give (1, 0.3, 0.3), (0.3, 1, 0.3) and (0.3, 0.3, 1).
\<close>

lemma mesh_marker_colour_rounded:
  assumes "attrs_ok ext pose_results"
    and "i < length pose_results"
    and "tbl = run_calls ext [] earlier"
    and "map_size (fst (process ext time image_message tbl pose_results)) \<le> 2 ^ 32"
  shows "\<exists>tbl' out idx hue.
           process ext time image_message tbl pose_results = (tbl', Inr out)
           \<and> fst ` set tbl' = object_id ` (set (pose_results_of earlier) \<union> set pose_results)
           \<and> map_size tbl' = card (object_id ` (set (pose_results_of earlier) \<union> set pose_results))
           \<and> map_find tbl' (object_id (pose_results ! i)) = Some idx
           \<and> hue = to_float (to_double (to_double (360 / to_double (real (map_size tbl')))
                                          * to_double (real (unat idx))))
           \<and> \<bar>hue - 360 / real (map_size tbl') * real (unat idx)\<bar> \<le> 1 / 40000
           \<and> 0 \<le> hue \<and> hue \<le> 360
           \<and> (map_size tbl' < 23592960 \<longrightarrow> hue < 360)
           \<and> m_color (markers (marker_message out) ! (2 * i)) =
               (case hsv2rgb hue (7 / 10) 1 of (r, g, b) \<Rightarrow> ColorRGBA r g b (3 / 4))
           \<and> (hue < 360 \<and> hsv2rgb hue (7 / 10) 1 = hsv_sectors hue (7 / 10) 1
                \<or> hue = 360 \<and> hsv2rgb hue (7 / 10) 1 = (3 / 10, 3 / 10, 3 / 10))
           \<and> hsv2rgb 0 (7 / 10) 1 = (1, 3 / 10, 3 / 10)
           \<and> hsv2rgb 120 (7 / 10) 1 = (3 / 10, 1, 3 / 10)
           \<and> hsv2rgb 240 (7 / 10) 1 = (3 / 10, 3 / 10, 1)"
proof -
  let ?t = "register_ids tbl pose_results"
  have t: "tbl = register_ids [] (pose_results_of earlier)"
    using assms(3) by (simp add: run_calls_register)
  have inv: "table_inv ?t"
    unfolding t by (intro table_inv_register_ids table_inv_empty)
  have size: "length ?t \<le> 2 ^ 32"
    using assms(4) by (simp add: process_table map_size_def)
  have keys: "fst ` set ?t = object_id ` (set (pose_results_of earlier) \<union> set pose_results)"
    unfolding t by (simp add: register_ids_keys image_Un)
  have card: "map_size ?t = card (object_id ` (set (pose_results_of earlier) \<union> set pose_results))"
    using table_size_card [OF inv] keys by simp
  obtain idx where idx: "map_of ?t (object_id (pose_results ! i)) = Some idx"
    using register_ids_present [of "pose_results ! i" pose_results tbl] assms(2) by auto
  define hue where "hue = to_float (to_double (to_double (360 / to_double (real (map_size ?t)))
                                                 * to_double (real (unat idx))))"
  note range = hue_range [OF inv idx size hue_def]
  have sect: "hue < 360 \<and> hsv2rgb hue (7 / 10) 1 = hsv_sectors hue (7 / 10) 1
                \<or> hue = 360 \<and> hsv2rgb hue (7 / 10) 1 = (3 / 10, 3 / 10, 3 / 10)"
  proof (cases "hue < 360")
    case True
    then show ?thesis
      using range(1) by (simp add: hsv2rgb_sectors)
  next
    case False
    then have "hue = 360"
      using range(2) by simp
    then show ?thesis
      by (simp add: hsv2rgb_360)
  qed
  have colour: "m_color (markers_from ext hdr ?t 0 pose_results ! (2 * i)) =
      (case hsv2rgb hue (7 / 10) 1 of (r, g, b) \<Rightarrow> ColorRGBA r g b (3 / 4))" for hdr
    using assms(2) idx
    by (simp add: markers_from_even mesh_marker_of_def hue_of_present hue_def)
  obtain poses1 where "process ext time image_message tbl pose_results =
     (?t,
      Inr \<lparr>pose_message = \<lparr>pa_header = header_of time image_message, poses = poses1\<rparr>,
           object_ids_message = \<lparr>data = or_json_write ext (object_ids_param_tree pose_results)\<rparr>,
           marker_message =
             \<lparr>markers = markers_from ext (header_of time image_message) ?t 0 pose_results\<rparr>\<rparr>)"
    using process_completes [OF assms(1)] by blast
  then have "process ext time image_message tbl pose_results =
       (?t,
        Inr \<lparr>pose_message = \<lparr>pa_header = header_of time image_message, poses = poses1\<rparr>,
             object_ids_message = \<lparr>data = or_json_write ext (object_ids_param_tree pose_results)\<rparr>,
             marker_message =
               \<lparr>markers = markers_from ext (header_of time image_message) ?t 0 pose_results\<rparr>\<rparr>)
     \<and> fst ` set ?t = object_id ` (set (pose_results_of earlier) \<union> set pose_results)
     \<and> map_size ?t = card (object_id ` (set (pose_results_of earlier) \<union> set pose_results))
     \<and> map_find ?t (object_id (pose_results ! i)) = Some idx
     \<and> hue = to_float (to_double (to_double (360 / to_double (real (map_size ?t)))
                                    * to_double (real (unat idx))))
     \<and> \<bar>hue - 360 / real (map_size ?t) * real (unat idx)\<bar> \<le> 1 / 40000
     \<and> 0 \<le> hue \<and> hue \<le> 360
     \<and> (map_size ?t < 23592960 \<longrightarrow> hue < 360)
     \<and> m_color (markers (marker_message
           \<lparr>pose_message = \<lparr>pa_header = header_of time image_message, poses = poses1\<rparr>,
            object_ids_message = \<lparr>data = or_json_write ext (object_ids_param_tree pose_results)\<rparr>,
            marker_message =
              \<lparr>markers = markers_from ext (header_of time image_message) ?t 0 pose_results\<rparr>\<rparr>)
           ! (2 * i)) =
         (case hsv2rgb hue (7 / 10) 1 of (r, g, b) \<Rightarrow> ColorRGBA r g b (3 / 4))
     \<and> (hue < 360 \<and> hsv2rgb hue (7 / 10) 1 = hsv_sectors hue (7 / 10) 1
          \<or> hue = 360 \<and> hsv2rgb hue (7 / 10) 1 = (3 / 10, 3 / 10, 3 / 10))
     \<and> hsv2rgb 0 (7 / 10) 1 = (1, 3 / 10, 3 / 10)
     \<and> hsv2rgb 120 (7 / 10) 1 = (3 / 10, 1, 3 / 10)
     \<and> hsv2rgb 240 (7 / 10) 1 = (3 / 10, 3 / 10, 1)"
    using keys card idx range sect colour hsv2rgb_samples hue_def
    by (simp add: map_find_def)
  then show ?thesis
    by blast
qed

lemma mesh_marker_colour_rounded_example:
  "attrs_ok example_externals [example_b, example_c, example_c]
   \<and> (1 :: nat) < length [example_b, example_c, example_c]
   \<and> [(''a'', 0), (''b'', 1)] = run_calls example_externals [] [(Time 7 0, None, [example_a, example_b])]
   \<and> map_size (fst (process example_externals (Time 8 0) None [(''a'', 0), (''b'', 1)]
                 [example_b, example_c, example_c])) \<le> 2 ^ 32
   \<and> map_size [(''a'', 0 :: 32 word), (''b'', 1), (''c'', 2)] < 23592960
   \<and> to_float (to_double (to_double (360 / to_double 3) * to_double 2)) = 240
   \<and> (\<exists>out. process example_externals (Time 8 0) None [(''a'', 0), (''b'', 1)]
                 [example_b, example_c, example_c] =
               ([(''a'', 0), (''b'', 1), (''c'', 2)], Inr out)
           \<and> m_color (markers (marker_message out) ! 2) = ColorRGBA (3 / 10) (3 / 10) 1 (3 / 4))"
proof -
  let ?t = "[(''a'', 0), (''b'', 1)] :: index_table"
  let ?prs = "[example_b, example_c, example_c]"
  have h1: "attrs_ok example_externals ?prs"
    by (rule attrs_ok_example)
  have h3: "(1 :: nat) < length ?prs"
    by simp
  have h4: "?t = run_calls example_externals [] [(Time 7 0, None, [example_a, example_b])]"
    by (simp only: run_calls.simps process_table example_table_ab)
  have after: "fst (process example_externals (Time 8 0) None ?t ?prs) =
      [(''a'', 0), (''b'', 1), (''c'', 2)]"
    by (simp only: process_table example_table_bc)
  have h5: "map_size (fst (process example_externals (Time 8 0) None ?t ?prs)) \<le> 2 ^ 32"
    by (simp add: after map_size_def)
  have h6: "map_size [(''a'', 0 :: 32 word), (''b'', 1), (''c'', 2)] < 23592960"
    by (simp add: map_size_def)
  have v: "to_float (to_double (to_double (360 / to_double 3) * to_double 2)) = 240"
    by (simp add: to_double_small to_double_120 to_double_240 to_float_240)
  obtain tbl' out idx hue where
    p: "process example_externals (Time 8 0) None ?t ?prs = (tbl', Inr out)"
    and f: "map_find tbl' (object_id (?prs ! 1)) = Some idx"
    and hu: "hue = to_float (to_double (to_double (360 / to_double (real (map_size tbl')))
                                         * to_double (real (unat idx))))"
    and below: "map_size tbl' < 23592960 \<longrightarrow> hue < 360"
    and col: "m_color (markers (marker_message out) ! (2 * 1)) =
               (case hsv2rgb hue (7 / 10) 1 of (r, g, b) \<Rightarrow> ColorRGBA r g b (3 / 4))"
    using mesh_marker_colour_rounded [OF h1 h3 h4 h5] by blast
  have t': "tbl' = [(''a'', 0), (''b'', 1), (''c'', 2)]"
    using p after by simp
  have "idx = 2"
    using f by (simp add: t' map_find_def example_c_def)
  then have "hue = 240"
    using hu by (simp add: t' map_size_def v)
  then have "m_color (markers (marker_message out) ! 2) = ColorRGBA (3 / 10) (3 / 10) 1 (3 / 4)"
    using col by (simp add: hsv2rgb_samples)
  then show ?thesis
    using h1 h3 h4 h5 h6 v p t' by blast
qed

section \<open>The claims\<close>

text \<open>
  C1, as amended. When the attribute lookups return and there are at most \<open>2^31\<close>
  pose results (the counter \<open>marker_id\<close> is an unsigned int that is stored into the
  signed \<open>id\<close>), the marker array has twice as many markers as there are pose
  results: for the pose result at position \<open>i\<close> a mesh marker at \<open>2 * i\<close> and a text
  marker at \<open>2 * i + 1\<close>, made from its attributes. Both carry the identifier \<open>i\<close>:
  the text marker is the record of the mesh marker with some fields overwritten,
  and \<open>id\<close> is not one of them. The identifiers are 0, 0, 1, 1, 2, 2 and so on: they
  start at 0 and never decrease, and each value occurs twice.
\<close>

theorem marker_array_shape:
  assumes "attrs_ok ext pose_results" and "length pose_results \<le> 2 ^ 31"
  shows "\<exists>out. snd (process ext time image_message tbl pose_results) = Inr out
           \<and> length (markers (marker_message out)) = 2 * length pose_results
           \<and> (\<forall>i<length pose_results.
                 m_type (markers (marker_message out) ! (2 * i)) = MESH_RESOURCE
                 \<and> m_type (markers (marker_message out) ! (2 * i + 1)) = TEXT_VIEW_FACING
                 \<and> m_id (markers (marker_message out) ! (2 * i)) = int i
                 \<and> m_id (markers (marker_message out) ! (2 * i + 1)) = int i
                 \<and> get_attribute ext (pose_results ! i) ''mesh_uri'' =
                     Some (m_mesh_resource (markers (marker_message out) ! (2 * i)))
                 \<and> get_attribute ext (pose_results ! i) ''name'' =
                     Some (m_text (markers (marker_message out) ! (2 * i + 1))))
           \<and> map m_id (markers (marker_message out)) =
               map (\<lambda>j. int (j div 2)) [0..<2 * length pose_results]"
proof -
  have len: "length pose_results \<le> 2 ^ 32"
    using assms(2) by simp
  have ids: "sint (of_nat i :: 32 word) = int i" if "i < length pose_results" for i
    using that assms(2) by (intro sint_of_nat_32) simp
  have all_ids: "map m_id (markers_from ext hdr tbl1 0 pose_results) =
      map (\<lambda>j. int (j div 2)) [0..<2 * length pose_results]" for hdr tbl1
    using markers_from_ids [of 0 pose_results ext hdr tbl1] assms(2) by simp
  show ?thesis
    using attrs_ok_nth [OF assms(1)] ids all_ids
    by (simp add: process_ok [OF assms(1) len] length_markers_from markers_from_even
        markers_from_odd mesh_marker_of_def text_marker_of_def)
qed

theorem marker_array_shape_witness:
  "attrs_ok example_externals [example_a, example_b, example_a]
   \<and> length [example_a, example_b, example_a] \<le> 2 ^ 31
   \<and> (\<exists>out. snd (process example_externals (Time 7 0) None [] [example_a, example_b, example_a]) = Inr out
           \<and> length (markers (marker_message out)) = 2 * length [example_a, example_b, example_a]
           \<and> (\<forall>i<length [example_a, example_b, example_a].
                 m_type (markers (marker_message out) ! (2 * i)) = MESH_RESOURCE
                 \<and> m_type (markers (marker_message out) ! (2 * i + 1)) = TEXT_VIEW_FACING
                 \<and> m_id (markers (marker_message out) ! (2 * i)) = int i
                 \<and> m_id (markers (marker_message out) ! (2 * i + 1)) = int i
                 \<and> get_attribute example_externals ([example_a, example_b, example_a] ! i) ''mesh_uri'' =
                     Some (m_mesh_resource (markers (marker_message out) ! (2 * i)))
                 \<and> get_attribute example_externals ([example_a, example_b, example_a] ! i) ''name'' =
                     Some (m_text (markers (marker_message out) ! (2 * i + 1))))
           \<and> map m_id (markers (marker_message out)) = [0, 0, 1, 1, 2, 2])"
proof -
  have a: "attrs_ok example_externals [example_a, example_b, example_a]"
    by (rule attrs_ok_example)
  have b: "length [example_a, example_b, example_a] \<le> 2 ^ 31"
    by simp
  have e: "map (\<lambda>j. int (j div 2)) [0..<2 * length [example_a, example_b, example_a]] =
      [0, 0, 1, 1, 2, 2]"
    by (simp add: upt_rec)
  show ?thesis
    using a b marker_array_shape [OF a b, of "Time 7 0" None "[]"]
    unfolding e by blast
qed

text \<open>
  C1, as stated, fails on one pose result: its two markers both have the
  identifier 0, so the identifiers are neither distinct nor strictly increasing.
\<close>

theorem marker_ids_counterexample:
  "marker_ids (snd (process example_externals (Time 7 0) None [] [example_a])) = [0, 0]
   \<and> \<not> distinct (marker_ids (snd (process example_externals (Time 7 0) None [] [example_a])))
   \<and> \<not> sorted_wrt (<) (marker_ids (snd (process example_externals (Time 7 0) None [] [example_a])))"
proof -
  have a: "attrs_ok example_externals [example_a]"
    by (rule attrs_ok_example)
  have "marker_ids (snd (process example_externals (Time 7 0) None [] [example_a])) = [0, 0]"
    by (simp add: process_ok [OF a] marker_ids_def mesh_marker_of_def text_marker_of_def)
  then show ?thesis by simp
qed

text \<open>
  C2. Let \<open>tbl\<close> be the table of a process after some calls and \<open>tbl'\<close> the table after
  some more, with at most \<open>2^32\<close> entries (the range of an index). Then \<open>tbl'\<close> is
  \<open>tbl\<close> with entries added at its end: nothing is removed or changed, and an
  identifier keeps its index. No identifier occurs twice. The identifiers added are
  those of the later calls that \<open>tbl\<close> did not hold, each once, in the order in which
  they were first seen. The entry at position \<open>j\<close> holds the index \<open>j\<close>: 0 for the
  first identifier the process saw, 1 for the second. And in a further call, a pose
  result whose identifier the table does not hold when the first loop reaches it
  gets the size of the table at that moment as its index.
\<close>

theorem index_table_grows:
  assumes "tbl = run_calls ext [] earlier"
    and "tbl' = run_calls ext tbl later"
    and "map_size tbl' \<le> 2 ^ 32"
  shows "prefix tbl tbl'
         \<and> distinct (map fst tbl')
         \<and> (\<forall>k idx. map_find tbl k = Some idx \<longrightarrow> map_find tbl' k = Some idx)
         \<and> map fst tbl' =
             map fst tbl @ first_seen (map fst tbl) (map object_id (pose_results_of later))
         \<and> (\<forall>j<map_size tbl'. unat (snd (tbl' ! j)) = j)
         \<and> (\<forall>time image_message pose_results before pose_result rest.
               pose_results = before @ pose_result # rest
               \<and> map_find (register_ids tbl' before) (object_id pose_result) = None \<longrightarrow>
               map_find (fst (process ext time image_message tbl' pose_results))
                 (object_id pose_result) =
                 Some (of_nat (map_size (register_ids tbl' before))))"
proof -
  have t: "tbl = register_ids [] (pose_results_of earlier)"
    using assms(1) by (simp add: run_calls_register)
  have t': "tbl' = register_ids tbl (pose_results_of later)"
    using assms(2) by (simp add: run_calls_register)
  have inv: "table_inv tbl'"
    unfolding t' t by (intro table_inv_register_ids table_inv_empty)
  have 1: "prefix tbl tbl'"
    unfolding t' by (rule register_ids_prefix)
  have 2: "distinct (map fst tbl')"
    using inv by (simp add: table_inv_def)
  have 3: "\<forall>k idx. map_find tbl k = Some idx \<longrightarrow> map_find tbl' k = Some idx"
    using prefix_map_of [OF 1] by (simp add: map_find_def)
  have 4: "map fst tbl' =
             map fst tbl @ first_seen (map fst tbl) (map object_id (pose_results_of later))"
    unfolding t' by (rule register_ids_first_seen)
  have 5: "\<forall>j<map_size tbl'. unat (snd (tbl' ! j)) = j"
    using table_inv_nth [OF inv] assms(3) by (simp add: map_size_def)
  have 6: "\<forall>time image_message pose_results before pose_result rest.
               pose_results = before @ pose_result # rest
               \<and> map_find (register_ids tbl' before) (object_id pose_result) = None \<longrightarrow>
               map_find (fst (process ext time image_message tbl' pose_results))
                 (object_id pose_result) =
                 Some (of_nat (map_size (register_ids tbl' before)))"
    by (simp add: process_table map_find_def map_size_def register_ids_first_sight)
  show ?thesis
    using 1 2 3 4 5 6 by blast
qed

theorem index_table_grows_witness:
  "[(''a'', 0), (''b'', 1)] =
     run_calls example_externals [] [(Time 7 0, None, [example_a, example_b])]
   \<and> [(''a'', 0), (''b'', 1), (''c'', 2)] =
       run_calls example_externals [(''a'', 0), (''b'', 1)]
         [(Time 8 0, None, [example_b, example_c, example_c])]
   \<and> map_size [(''a'', 0), (''b'', 1), (''c'', 2)] \<le> 2 ^ 32
   \<and> prefix [(''a'', 0 :: 32 word), (''b'', 1)] [(''a'', 0), (''b'', 1), (''c'', 2)]
   \<and> distinct (map fst [(''a'', 0 :: 32 word), (''b'', 1), (''c'', 2)])
   \<and> map_find [(''a'', 0), (''b'', 1), (''c'', 2)] ''b'' = Some 1
   \<and> map_find
        (fst (process example_externals (Time 9 0) None [(''a'', 0), (''b'', 1), (''c'', 2)]
                [example_c, example_c\<lparr>object_id := ''d''\<rparr>, example_a]))
        ''d'' = Some 3"
proof -
  let ?t = "[(''a'', 0), (''b'', 1)] :: index_table"
  let ?t' = "[(''a'', 0), (''b'', 1), (''c'', 2)] :: index_table"
  let ?d = "example_c\<lparr>object_id := ''d''\<rparr>"
  have h1: "?t = run_calls example_externals [] [(Time 7 0, None, [example_a, example_b])]"
    by (simp only: run_calls.simps process_table example_table_ab)
  have h2: "?t' = run_calls example_externals ?t [(Time 8 0, None, [example_b, example_c, example_c])]"
    by (simp only: run_calls.simps process_table example_table_bc)
  have h3: "map_size ?t' \<le> 2 ^ 32"
    by (simp add: map_size_def)
  note g = index_table_grows [OF h1 h2 h3]
  have b: "map_find ?t ''b'' = Some 1"
    by (simp add: map_find_def)
  have s: "[example_c, ?d, example_a] = [example_c] @ ?d # [example_a]"
    by simp
  have r: "register_ids ?t' [example_c] = ?t'"
    by (simp add: example_c_def map_find_def)
  have n: "map_find (register_ids ?t' [example_c]) (object_id ?d) = None"
    unfolding r by (simp add: map_find_def)
  have "map_find (fst (process example_externals (Time 9 0) None ?t' [example_c, ?d, example_a]))
          (object_id ?d) = Some (of_nat (map_size (register_ids ?t' [example_c])))"
    using g s n by blast
  then have d: "map_find (fst (process example_externals (Time 9 0) None ?t' [example_c, ?d, example_a]))
          ''d'' = Some 3"
    unfolding r by (simp add: map_size_def)
  show ?thesis
    using h1 h2 h3 g b d by blast
qed

text \<open>
  C3. The hue of a mesh marker is \<open>360 / size * idx\<close>, with \<open>size\<close> the size of the table
  after the first loop, and its colour is the conversion by six sectors of that hue
  with saturation 0.7 and value 1. The code misses this from 23592960 identifiers
  on. A new process is given 23592960 pose results with different identifiers. The
  last of them has the index 23592959, and the exact product
  \<open>360 / 23592960 * 23592959\<close> is \<open>360 - 1 / 65536\<close>, a hue for which the conversion by
  six sectors gives a colour whose red is 1. The code computes that product without
  error in double, but it lies halfway between two floats and the tie goes to 360:
  the hue of the code is 360, none of the six branches of \<open>hsv2rgb\<close> is taken and the
  mesh marker is grey, (0.3, 0.3, 0.3) with alpha 0.75.
\<close>

theorem mesh_marker_grey_at_360:
  "map_size (fst (process example_externals (Time 7 0) None [] (numbered_poses 23592960))) = 23592960
   \<and> map_find (fst (process example_externals (Time 7 0) None [] (numbered_poses 23592960)))
        (object_id (numbered_poses 23592960 ! 23592959)) = Some 23592959
   \<and> 360 / real 23592960 * real (unat (23592959 :: 32 word)) = 360 - 1 / 65536
   \<and> hsv_sectors (360 - 1 / 65536) (7 / 10) 1 = (1, 3 / 10, 3 / 10 + 7 / 39321600)
   \<and> to_float (to_double (to_double (360 / to_double (real 23592960))
                            * to_double (real (unat (23592959 :: 32 word))))) = 360
   \<and> (\<exists>out. snd (process example_externals (Time 7 0) None [] (numbered_poses 23592960)) = Inr out
           \<and> m_color (markers (marker_message out) ! (2 * 23592959)) =
               ColorRGBA (3 / 10) (3 / 10) (3 / 10) (3 / 4))"
proof -
  let ?prs = "numbered_poses 23592960"
  let ?t = "register_ids [] ?prs"
  have a: "attrs_ok example_externals ?prs"
    by (rule attrs_ok_example)
  have len: "length ?prs = 23592960"
    by (simp add: numbered_poses_def)
  have size: "map_size ?t = 23592960"
    by (rule numbered_poses_table(1))
  have idx: "map_of ?t (object_id (?prs ! 23592959)) = Some 23592959"
    using numbered_poses_table(2) [of 23592959 23592960] by simp
  have u: "unat (23592959 :: 32 word) = 23592959"
    by simp
  have exact: "360 / real 23592960 * real (unat (23592959 :: 32 word)) = 360 - 1 / 65536"
    by (simp add: u)
  have sectors: "hsv_sectors (360 - 1 / 65536) (7 / 10) 1 = (1, 3 / 10, 3 / 10 + 7 / 39321600)"
    by (simp add: hsv_sectors_def Let_def)
  have "length ?t \<le> 2 ^ 32"
    using size by (simp add: map_size_def)
  then have "to_float (to_double (to_double (360 / to_double (real (map_size ?t)))
                                    * to_double (real (unat (23592959 :: 32 word))))) =
        to_float (to_double (to_double (360 / real (length ?t)) * real (unat (23592959 :: 32 word))))"
    by (rule hue_conversions)
  also have "\<dots> = to_float (to_double (to_double (360 / real 23592960) * real 23592959))"
    using size by (simp only: map_size_def u)
  also have "\<dots> = 360"
    by (rule hue_tie)
  finally have tie: "to_float (to_double (to_double (360 / to_double (real (map_size ?t)))
                                    * to_double (real (unat (23592959 :: 32 word))))) = 360" .
  then have hue: "hue_of ?t (object_id (?prs ! 23592959)) = 360"
    by (simp only: hue_of_present [OF idx])
  have tie': "to_float (to_double (to_double (360 / to_double (real 23592960))
                            * to_double (real (unat (23592959 :: 32 word))))) = 360"
    using tie by (simp only: size)
  have "m_color (markers_from example_externals hdr ?t 0 ?prs ! (2 * 23592959)) =
      ColorRGBA (3 / 10) (3 / 10) (3 / 10) (3 / 4)" for hdr
  proof -
    have "markers_from example_externals hdr ?t 0 ?prs ! (2 * 23592959) =
        mesh_marker_of example_externals hdr ?t (0 + of_nat 23592959) (?prs ! 23592959)"
      by (rule markers_from_even) (simp add: len)
    then show ?thesis
      by (simp add: mesh_marker_of_def hue hsv2rgb_360)
  qed
  moreover obtain poses1 where "process example_externals (Time 7 0) None [] ?prs =
     (?t,
      Inr \<lparr>pose_message = \<lparr>pa_header = header_of (Time 7 0) None, poses = poses1\<rparr>,
           object_ids_message = \<lparr>data = or_json_write example_externals (object_ids_param_tree ?prs)\<rparr>,
           marker_message =
             \<lparr>markers = markers_from example_externals (header_of (Time 7 0) None) ?t 0 ?prs\<rparr>\<rparr>)"
    using process_completes [OF a] by blast
  ultimately have "\<exists>out. snd (process example_externals (Time 7 0) None [] ?prs) = Inr out
           \<and> m_color (markers (marker_message out) ! (2 * 23592959)) =
               ColorRGBA (3 / 10) (3 / 10) (3 / 10) (3 / 4)"
    by simp
  moreover have "map_size (fst (process example_externals (Time 7 0) None [] ?prs)) = 23592960"
    by (simp only: process_table size)
  moreover have "map_find (fst (process example_externals (Time 7 0) None [] ?prs))
        (object_id (?prs ! 23592959)) = Some 23592959"
    by (simp only: process_table map_find_def idx)
  ultimately show ?thesis
    using exact sectors tie' by blast
qed

text \<open>
  C4. When the attribute lookups return, the payload is the text the JSON writer
  makes of the object whose only key \<open>object_ids\<close> holds the array of the
  identifiers of the pose results, as strings, in the order of the input: one
  entry for each pose result, duplicates kept.
\<close>

theorem object_ids_payload:
  assumes "attrs_ok ext pose_results"
  shows "\<exists>out. snd (process ext time image_message tbl pose_results) = Inr out
           \<and> data (object_ids_message out) =
               or_json_write ext
                 (mObject [(''object_ids'', mArray (map mStr (map object_id pose_results)))])"
proof -
  obtain poses1 where "process ext time image_message tbl pose_results =
     (register_ids tbl pose_results,
      Inr \<lparr>pose_message = \<lparr>pa_header = header_of time image_message, poses = poses1\<rparr>,
           object_ids_message = \<lparr>data = or_json_write ext (object_ids_param_tree pose_results)\<rparr>,
           marker_message =
             \<lparr>markers = markers_from ext (header_of time image_message)
                          (register_ids tbl pose_results) 0 pose_results\<rparr>\<rparr>)"
    using process_completes [OF assms] by blast
  then show ?thesis
    by (simp add: object_ids_param_tree_def comp_def)
qed

theorem object_ids_payload_witness:
  "attrs_ok example_externals [example_a, example_b, example_a]
   \<and> (\<exists>out. snd (process example_externals (Time 7 0) None [] [example_a, example_b, example_a]) = Inr out
           \<and> data (object_ids_message out) =
               json_text (mObject [(''object_ids'', mArray [mStr ''a'', mStr ''b'', mStr ''a''])]))"
proof -
  have a: "attrs_ok example_externals [example_a, example_b, example_a]"
    by (rule attrs_ok_example)
  have w: "or_json_write example_externals = json_text"
    by (simp add: example_externals_def)
  show ?thesis
    using a object_ids_payload [OF a, of "Time 7 0" None "[]"]
    by (simp add: w example_a_def example_b_def)
qed

text \<open>
  C5. When the attribute lookups return and there are at most \<open>2^32\<close> pose results
  (the range of the counter that indexes \<open>poses\<close>), the pose array has one pose for
  each pose result, in the order of the input: its position is the translation
  \<open>T\<close> and its orientation the quaternion that the conversion gives for \<open>R\<close>.
\<close>

theorem pose_array_entries:
  assumes "attrs_ok ext pose_results" and "length pose_results \<le> 2 ^ 32"
  shows "\<exists>out. snd (process ext time image_message tbl pose_results) = Inr out
           \<and> length (poses (pose_message out)) = length pose_results
           \<and> (\<forall>i<length pose_results.
                 position (poses (pose_message out) ! i) =
                   (case pr_T (pose_results ! i) of (t0, t1, t2) \<Rightarrow> Point t0 t1 t2)
                 \<and> orientation (poses (pose_message out) ! i) =
                     quaternion_of ext (pr_R (pose_results ! i)))"
  by (simp add: process_ok [OF assms] msg_pose_of_def)

theorem pose_array_entries_witness:
  "attrs_ok example_externals [example_a, example_b, example_a]
   \<and> length [example_a, example_b, example_a] \<le> 2 ^ 32
   \<and> (\<exists>out. snd (process example_externals (Time 7 0) None [] [example_a, example_b, example_a]) = Inr out
           \<and> map position (poses (pose_message out)) = [Point 1 2 3, Point 0 0 1, Point 1 2 3]
           \<and> map orientation (poses (pose_message out)) =
               [Quaternion 0 0 0 1, Quaternion 0 0 1 0, Quaternion 0 0 0 1])"
proof -
  let ?prs = "[example_a, example_b, example_a]"
  have a: "attrs_ok example_externals ?prs"
    by (rule attrs_ok_example)
  have b: "length ?prs \<le> 2 ^ 32"
    by simp
  have q: "quaternion_of example_externals = standard_quaternion"
    by (simp add: example_externals_def)
  obtain out where out: "snd (process example_externals (Time 7 0) None [] ?prs) = Inr out"
    and len: "length (poses (pose_message out)) = length ?prs"
    and each: "\<forall>i<length ?prs.
                 position (poses (pose_message out) ! i) =
                   (case pr_T (?prs ! i) of (t0, t1, t2) \<Rightarrow> Point t0 t1 t2)
                 \<and> orientation (poses (pose_message out) ! i) =
                     quaternion_of example_externals (pr_R (?prs ! i))"
    using pose_array_entries [OF a b, of "Time 7 0" None "[]"] by blast
  obtain p0 p1 p2 where ps: "poses (pose_message out) = [p0, p1, p2]"
    using len by (auto simp add: length_Suc_conv)
  have "position p0 = Point 1 2 3 \<and> orientation p0 = Quaternion 0 0 0 1"
    using each [rule_format, of 0]
    by (simp add: ps q example_a_def standard_quaternion_examples)
  moreover have "position p1 = Point 0 0 1 \<and> orientation p1 = Quaternion 0 0 1 0"
    using each [rule_format, of 1]
    by (simp add: ps q example_b_def standard_quaternion_examples)
  moreover have "position p2 = Point 1 2 3 \<and> orientation p2 = Quaternion 0 0 0 1"
    using each [rule_format, of 2]
    by (simp add: ps q example_a_def standard_quaternion_examples)
  ultimately show ?thesis
    using a b out ps by simp
qed

text \<open>
  C6. When the sequence of pose results is empty the call returns its three
  outputs: a pose array without poses (its header stamped as always), a marker
  array without markers and the payload that the JSON writer makes of the object
  whose key \<open>object_ids\<close> holds the empty array. The table is left as it was.
\<close>

theorem empty_input_outputs:
  "process ext time image_message tbl [] =
     (tbl,
      Inr \<lparr>pose_message = \<lparr>pa_header = header_of time image_message, poses = []\<rparr>,
           object_ids_message =
             \<lparr>data = or_json_write ext (mObject [(''object_ids'', mArray [])])\<rparr>,
           marker_message = \<lparr>markers = []\<rparr>\<rparr>)"
  by (simp add: process_def header_of_def object_ids_param_tree_def)

text \<open>
  C7. The conversion is Eigen's and is not in the file. If the quaternion it
  returns for the identity matrix is a unit quaternion with that rotation matrix,
  it is (0, 0, 0, 1) or its negative; likewise (0, 0, 1, 0) or its negative for the
  rotation by 180 degrees about the z axis. The standard conversion, as modelled,
  returns (0, 0, 0, 1) and (0, 0, 1, 0).
\<close>

theorem quaternion_of_known_rotations:
  assumes "represents (quaternion_of ext identity_matrix) identity_matrix"
    and "represents (quaternion_of ext rotation_z_180) rotation_z_180"
  shows "(quaternion_of ext identity_matrix = Quaternion 0 0 0 1
          \<or> quaternion_of ext identity_matrix = Quaternion 0 0 0 (- 1))
         \<and> (quaternion_of ext rotation_z_180 = Quaternion 0 0 1 0
            \<or> quaternion_of ext rotation_z_180 = Quaternion 0 0 (- 1) 0)
         \<and> standard_quaternion identity_matrix = Quaternion 0 0 0 1
         \<and> standard_quaternion rotation_z_180 = Quaternion 0 0 1 0"
  using represents_identity [OF assms(1)] represents_rotation_z_180 [OF assms(2)]
    standard_quaternion_examples
  by simp

theorem quaternion_of_known_rotations_witness:
  "represents (quaternion_of example_externals identity_matrix) identity_matrix
   \<and> represents (quaternion_of example_externals rotation_z_180) rotation_z_180
   \<and> quaternion_of example_externals identity_matrix = Quaternion 0 0 0 1
   \<and> quaternion_of example_externals rotation_z_180 = Quaternion 0 0 1 0"
proof -
  have q: "quaternion_of example_externals = standard_quaternion"
    by (simp add: example_externals_def)
  have h1: "represents (quaternion_of example_externals identity_matrix) identity_matrix"
    unfolding q standard_quaternion_examples
    by (simp add: represents_def unit_quaternion_def quaternion_matrix_def identity_matrix_def)
  have h2: "represents (quaternion_of example_externals rotation_z_180) rotation_z_180"
    unfolding q standard_quaternion_examples
    by (simp add: represents_def unit_quaternion_def quaternion_matrix_def rotation_z_180_def)
  show ?thesis
    using h1 h2 quaternion_of_known_rotations [OF h1 h2]
    unfolding q standard_quaternion_examples by simp
qed

text \<open>
  C8. When the attribute lookups return, the call completes, the stamp of the
  header of the pose array is the time read at the start of the call, and its
  frame identifier is that of the image when there is an image and the empty
  string of a default header when there is none.
\<close>

theorem header_stamp_and_frame:
  assumes "attrs_ok ext pose_results"
  shows "\<exists>out. snd (process ext time image_message tbl pose_results) = Inr out
           \<and> stamp (pa_header (pose_message out)) = time
           \<and> frame_id (pa_header (pose_message out)) =
               (case image_message of Some img \<Rightarrow> frame_id (image_header img) | None \<Rightarrow> [])"
proof -
  obtain poses1 where "process ext time image_message tbl pose_results =
     (register_ids tbl pose_results,
      Inr \<lparr>pose_message = \<lparr>pa_header = header_of time image_message, poses = poses1\<rparr>,
           object_ids_message = \<lparr>data = or_json_write ext (object_ids_param_tree pose_results)\<rparr>,
           marker_message =
             \<lparr>markers = markers_from ext (header_of time image_message)
                          (register_ids tbl pose_results) 0 pose_results\<rparr>\<rparr>)"
    using process_completes [OF assms] by blast
  then show ?thesis
    by (simp add: header_of_def default_Header_def split: option.splits)
qed

theorem header_stamp_and_frame_witness:
  "attrs_ok example_externals [example_a, example_b]
   \<and> (\<exists>out. snd (process example_externals (Time 7 0) None [] [example_a, example_b]) = Inr out
           \<and> stamp (pa_header (pose_message out)) = Time 7 0
           \<and> frame_id (pa_header (pose_message out)) = [])
   \<and> (\<exists>out. snd (process example_externals (Time 7 0)
                  (Some \<lparr>image_header = \<lparr>seq = 0, stamp = Time 6 0, frame_id = ''camera''\<rparr>\<rparr>)
                  [] [example_a, example_b]) = Inr out
           \<and> stamp (pa_header (pose_message out)) = Time 7 0
           \<and> frame_id (pa_header (pose_message out)) = ''camera'')"
proof -
  have a: "attrs_ok example_externals [example_a, example_b]"
    by (rule attrs_ok_example)
  show ?thesis
    using a header_stamp_and_frame [OF a, of "Time 7 0" None "[]"]
      header_stamp_and_frame [OF a, of "Time 7 0"
        "Some \<lparr>image_header = \<lparr>seq = 0, stamp = Time 6 0, frame_id = ''camera''\<rparr>\<rparr>" "[]"]
    by simp
qed

text \<open>
  C9. For the pose result at position \<open>i\<close>: the mesh marker has the pose of entry
  \<open>i\<close> of the pose array, scale (1, 1, 1), the colour that \<open>hsv2rgb\<close> gives for the
  hue of the object with saturation 0.7 and value 1, alpha 0.75, a lifetime of 30
  seconds, the action \<open>ADD\<close> and the attribute \<open>mesh_uri\<close> as mesh resource; the text
  marker after it has the same pose, scale (1, 1, 0.03), the colour (1, 1, 1, 1),
  a lifetime of 10 seconds and the attribute \<open>name\<close> as text. The attribute lookups
  return and there are at most \<open>2^32\<close> pose results.
\<close>

theorem marker_fields:
  assumes "attrs_ok ext pose_results" and "length pose_results \<le> 2 ^ 32"
    and "i < length pose_results"
  shows "\<exists>out idx r g b.
           process ext time image_message tbl pose_results =
             (register_ids tbl pose_results, Inr out)
           \<and> map_find (register_ids tbl pose_results) (object_id (pose_results ! i)) = Some idx
           \<and> hsv2rgb
                (to_float (to_double
                   (to_double (360 / to_double (real (map_size (register_ids tbl pose_results))))
                      * to_double (real (unat idx)))))
                (7 / 10) 1 = (r, g, b)
           \<and> poses (pose_message out) ! i =
               \<lparr>position = (case pr_T (pose_results ! i) of (t0, t1, t2) \<Rightarrow> Point t0 t1 t2),
                orientation = quaternion_of ext (pr_R (pose_results ! i))\<rparr>
           \<and> m_type (markers (marker_message out) ! (2 * i)) = MESH_RESOURCE
           \<and> m_pose (markers (marker_message out) ! (2 * i)) = poses (pose_message out) ! i
           \<and> m_scale (markers (marker_message out) ! (2 * i)) = Vector3 1 1 1
           \<and> m_color (markers (marker_message out) ! (2 * i)) = ColorRGBA r g b (3 / 4)
           \<and> m_lifetime (markers (marker_message out) ! (2 * i)) = Duration 30
           \<and> m_action (markers (marker_message out) ! (2 * i)) = ADD
           \<and> get_attribute ext (pose_results ! i) ''mesh_uri'' =
               Some (m_mesh_resource (markers (marker_message out) ! (2 * i)))
           \<and> m_type (markers (marker_message out) ! (2 * i + 1)) = TEXT_VIEW_FACING
           \<and> m_pose (markers (marker_message out) ! (2 * i + 1)) = poses (pose_message out) ! i
           \<and> m_scale (markers (marker_message out) ! (2 * i + 1)) = Vector3 1 1 (3 / 100)
           \<and> m_color (markers (marker_message out) ! (2 * i + 1)) = ColorRGBA 1 1 1 1
           \<and> m_lifetime (markers (marker_message out) ! (2 * i + 1)) = Duration 10
           \<and> m_action (markers (marker_message out) ! (2 * i + 1)) = ADD
           \<and> get_attribute ext (pose_results ! i) ''name'' =
               Some (m_text (markers (marker_message out) ! (2 * i + 1)))"
proof -
  let ?t = "register_ids tbl pose_results"
  obtain idx where idx: "map_of ?t (object_id (pose_results ! i)) = Some idx"
    using register_ids_present [of "pose_results ! i" pose_results tbl] assms(3) by auto
  let ?hue = "to_float (to_double (to_double (360 / to_double (real (map_size ?t)))
                                     * to_double (real (unat idx))))"
  obtain r g b where rgb: "hsv2rgb ?hue (7 / 10) 1 = (r, g, b)"
    by (cases "hsv2rgb ?hue (7 / 10) 1") auto
  show ?thesis
    using attrs_ok_nth [OF assms(1) assms(3)] idx rgb assms(3)
    by (simp add: process_ok [OF assms(1) assms(2)] markers_from_even markers_from_odd
        mesh_marker_of_def text_marker_of_def hue_of_present map_find_def msg_pose_of_def)
qed

theorem marker_fields_witness:
  "attrs_ok example_externals [example_a, example_b, example_a]
   \<and> length [example_a, example_b, example_a] \<le> 2 ^ 32
   \<and> (1 :: nat) < length [example_a, example_b, example_a]
   \<and> (\<exists>out. process example_externals (Time 7 0) None [] [example_a, example_b, example_a] =
               ([(''a'', 0), (''b'', 1)], Inr out)
           \<and> hsv2rgb (to_float (to_double (to_double (360 / to_double 2) * to_double 1)))
                (7 / 10) 1 = (3 / 10, 1, 1)
           \<and> m_type (markers (marker_message out) ! 2) = MESH_RESOURCE
           \<and> m_pose (markers (marker_message out) ! 2) = poses (pose_message out) ! 1
           \<and> m_scale (markers (marker_message out) ! 2) = Vector3 1 1 1
           \<and> m_color (markers (marker_message out) ! 2) = ColorRGBA (3 / 10) 1 1 (3 / 4)
           \<and> m_lifetime (markers (marker_message out) ! 2) = Duration 30
           \<and> m_action (markers (marker_message out) ! 2) = ADD
           \<and> m_mesh_resource (markers (marker_message out) ! 2) = ''package://meshes/b''
           \<and> m_type (markers (marker_message out) ! 3) = TEXT_VIEW_FACING
           \<and> m_pose (markers (marker_message out) ! 3) = poses (pose_message out) ! 1
           \<and> m_scale (markers (marker_message out) ! 3) = Vector3 1 1 (3 / 100)
           \<and> m_color (markers (marker_message out) ! 3) = ColorRGBA 1 1 1 1
           \<and> m_lifetime (markers (marker_message out) ! 3) = Duration 10
           \<and> m_action (markers (marker_message out) ! 3) = ADD
           \<and> m_text (markers (marker_message out) ! 3) = ''object b'')"
proof -
  have a: "attrs_ok example_externals [example_a, example_b, example_a]"
    by (rule attrs_ok_example)
  have b: "length [example_a, example_b, example_a] \<le> 2 ^ 32"
    by simp
  have c: "(1 :: nat) < length [example_a, example_b, example_a]"
    by simp
  have h: "hsv2rgb 180 (7 / 10) 1 = (3 / 10, 1, 1)"
    by (simp add: hsv2rgb_def fmodf_def Let_def)
  have g: "get_attribute example_externals example_b ''mesh_uri'' = Some ''package://meshes/b''"
    "get_attribute example_externals example_b ''name'' = Some ''object b''"
    by (simp_all add: example_externals_def example_b_def)
  have o: "object_id example_b = ''b''"
    by (simp add: example_b_def)
  show ?thesis
    using a b c marker_fields [OF a b c, of "Time 7 0" None "[]"]
    unfolding example_table
    by (auto simp add: map_find_def map_size_def to_double_small to_double_180 to_float_180 h g o)
qed

text \<open>
  C10. Let \<open>pose_result\<close> be any pose result of the input, \<open>before\<close> those ahead of
  it. When the second loop reaches \<open>pose_result\<close> the table is still the one the
  first loop left; that table is not empty, so the divisor of the hue is at least
  1; it holds the identifier of \<open>pose_result\<close>, and \<^verbatim>\<open>operator[]\<close> returns the index
  stored there and inserts nothing. The table after the call is the table after
  the first loop.
\<close>

theorem hue_division_safe:
  assumes "pose_results = before @ pose_result # rest"
  shows "fst (fill_loop ext hdr (register_ids tbl pose_results) poses0 markers0 marker_id before) =
           register_ids tbl pose_results
         \<and> 0 < map_size (register_ids tbl pose_results)
         \<and> (\<exists>idx. map_find (register_ids tbl pose_results) (object_id pose_result) = Some idx
               \<and> map_subscript (register_ids tbl pose_results) (object_id pose_result) =
                   (idx, register_ids tbl pose_results))
         \<and> fst (loop_body ext hdr (register_ids tbl pose_results) poses0 markers0 marker_id pose_result) =
             register_ids tbl pose_results
         \<and> fst (process ext time image_message tbl pose_results) = register_ids tbl pose_results"
proof -
  let ?t = "register_ids tbl pose_results"
  have present: "map_of ?t (object_id pr) \<noteq> None" if "pr \<in> set pose_results" for pr
    using that by (rule register_ids_present)
  have "\<forall>pr\<in>set before. map_of ?t (object_id pr) \<noteq> None"
    using present assms by simp
  then have 1: "fst (fill_loop ext hdr ?t poses0 markers0 marker_id before) = ?t"
    by (rule fill_loop_table)
  obtain idx where idx: "map_of ?t (object_id pose_result) = Some idx"
    using present [of pose_result] assms by auto
  then have "?t \<noteq> []" by auto
  then have 2: "0 < map_size ?t" by (simp add: map_size_def)
  have 3: "map_find ?t (object_id pose_result) = Some idx
           \<and> map_subscript ?t (object_id pose_result) = (idx, ?t)"
    using idx by (simp add: map_find_def map_subscript_def)
  have 4: "fst (loop_body ext hdr ?t poses0 markers0 marker_id pose_result) = ?t"
    using idx by (simp add: loop_body_table)
  show ?thesis
    using 1 2 3 4 process_table by blast
qed

theorem hue_division_safe_witness:
  "[example_a, example_b, example_a] = [example_a] @ example_b # [example_a]
   \<and> fst (fill_loop example_externals (header_of (Time 7 0) None)
            (register_ids [] [example_a, example_b, example_a]) (replicate 3 default_Pose) [] 0
            [example_a]) =
       [(''a'', 0), (''b'', 1)]
   \<and> map_size (register_ids [] [example_a, example_b, example_a]) = 2
   \<and> map_subscript (register_ids [] [example_a, example_b, example_a]) (object_id example_b) =
       (1, [(''a'', 0), (''b'', 1)])
   \<and> fst (process example_externals (Time 7 0) None [] [example_a, example_b, example_a]) =
       [(''a'', 0), (''b'', 1)]"
proof -
  have s: "[example_a, example_b, example_a] = [example_a] @ example_b # [example_a]"
    by simp
  have m: "map_find [(''a'', 0), (''b'', 1)] (object_id example_b) = Some 1"
    by (simp add: map_find_def example_b_def)
  show ?thesis
    using hue_division_safe [OF s, of example_externals "header_of (Time 7 0) None" "[]"
        "replicate 3 default_Pose" "[]" 0 "Time 7 0" None]
    unfolding example_table
    using m by (auto simp add: map_size_def)
qed

end
